theory Spec2Isabelle
  imports Main "HOL-Library.AList"
begin

section \<open>Values exchanged with the remote service\<close>

text \<open>
  The library handles whatever \<^verbatim>\<open>response.json()\<close> returns, so the model works on
  JSON values with Python's dynamic operations on them. An object is an association
  list in insertion order, as a Python dict is.

  A float is kept by its value: \<open>Finite m e\<close> is \<open>m * 2 ^ e\<close>, the form of every
  finite double (both zeros have the mantissa 0); \<open>Infinite negative\<close> is \<^verbatim>\<open>inf\<close> or
  \<^verbatim>\<open>-inf\<close>, which the parser gives for a number beyond the range of doubles such as
  \<^verbatim>\<open>1e400\<close>, and \<open>NotANumber\<close> is \<^verbatim>\<open>nan\<close>, which the parser accepts as the literal
  \<^verbatim>\<open>NaN\<close>. The library never computes with a float: it passes it through, tests its
  truth value, or uses it as a dict key.
\<close>

datatype pyfloat =
    Finite int int
  | Infinite bool
  | NotANumber

datatype json =
    JNull
  | JBool bool
  | JInt int
  | JFloat pyfloat
  | JStr string
  | JList "json list"
  | JObj "(string \<times> json) list"

text \<open>
  The exceptions the library can raise or let through: the \<^verbatim>\<open>ValueError\<close> of
  \<^verbatim>\<open>query\<close>, the \<^verbatim>\<open>KeyError\<close> and \<^verbatim>\<open>TypeError\<close> of an unguarded lookup or
  iteration, and any failure of \<^verbatim>\<open>requests\<close> itself (transport failure, or a body
  that is not JSON).
\<close>

datatype error =
    ValueError string
  | KeyError string
  | TypeError
  | RequestError

text \<open>Truth value of a JSON value, as \<^verbatim>\<open>if x:\<close> and \<^verbatim>\<open>not x\<close> read it.\<close>

fun truthy :: "json \<Rightarrow> bool" where
  "truthy JNull = False"
| "truthy (JBool b) = b"
| "truthy (JInt i) = (i \<noteq> 0)"
| "truthy (JFloat (Finite m e)) = (m \<noteq> 0)"
| "truthy (JFloat f) = True"
| "truthy (JStr s) = (s \<noteq> [])"
| "truthy (JList xs) = (xs \<noteq> [])"
| "truthy (JObj kvs) = (kvs \<noteq> [])"

text \<open>
  \<^verbatim>\<open>x[key]\<close> with a string key: a dict looks the key up and raises \<^verbatim>\<open>KeyError\<close>
  when it is missing; every other value raises \<^verbatim>\<open>TypeError\<close> (a list and a string
  want integer indices, the rest is not subscriptable).
\<close>

fun getitem :: "json \<Rightarrow> string \<Rightarrow> error + json" where
  "getitem (JObj kvs) key =
     (case map_of kvs key of None \<Rightarrow> Inl (KeyError key) | Some v \<Rightarrow> Inr v)"
| "getitem v key = Inl TypeError"

text \<open>
  Iterating a value (\<^verbatim>\<open>list.extend\<close>, \<^verbatim>\<open>for\<close>, \<^verbatim>\<open>zip\<close>): a list gives its
  items, a dict its keys, a string its characters; anything else raises
  \<^verbatim>\<open>TypeError\<close>.
\<close>

fun iter :: "json \<Rightarrow> error + json list" where
  "iter (JList xs) = Inr xs"
| "iter (JObj kvs) = Inr (map (\<lambda>kv. JStr (fst kv)) kvs)"
| "iter (JStr s) = Inr (map (\<lambda>ch. JStr [ch]) s)"
| "iter v = Inl TypeError"

subsection \<open>Headers, requests and responses\<close>

text \<open>
  A header value is either a literal string or the f-string \<^verbatim>\<open>f"bearer {token}"\<close>,
  kept with the token it formats. A header dict is an association list in insertion
  order.
\<close>

datatype hvalue =
    Literal string
  | Bearer json

type_synonym header = "(string \<times> hvalue) list"

text \<open>
  The three calls of \<^verbatim>\<open>requests\<close> the library makes:
  \<^item> \<open>TokenRequest auth_url client_id secret\<close> is
    \<^verbatim>\<open>requests.get(auth_url, auth=HTTPBasicAuth(client_id, secret))\<close>;
  \<^item> \<open>ListRequest query_url offset limit header\<close> is
    \<^verbatim>\<open>requests.get(f"{query_url}?offset={offset}&limit={limit}", headers=header)\<close>;
  \<^item> \<open>QueryRequest query_url id header sql\<close> is
    \<^verbatim>\<open>requests.post(f"{query_url}/query/execute/{id}?includeHeaders=true",
      headers=header, json={"sql": sql})\<close>.
\<close>

datatype request =
    TokenRequest string string string
  | ListRequest string int int header
  | QueryRequest string json header string

text \<open>
  What \<^verbatim>\<open>requests.get(...).json()\<close> gives: the parsed body, or an exception
  (\<open>Failed\<close>).
\<close>

datatype response =
    Failed
  | Json json

text \<open>
  The world outside the Connection: the remote service, whose answer to a request may
  depend on every request it has answered before (so its state can change between two
  calls), and the requests sent so far, oldest first.
\<close>

record world =
  remote :: "request list \<Rightarrow> request \<Rightarrow> response"
  sent :: "request list"

definition send :: "world \<Rightarrow> request \<Rightarrow> response \<times> world" where
  "send w r = (remote w (sent w) r, w\<lparr>sent := sent w @ [r]\<rparr>)"

section \<open>The Connection\<close>

text \<open>
  The dataclass. The fields \<^verbatim>\<open>_login\<close>, \<^verbatim>\<open>_tables\<close> and \<^verbatim>\<open>_last_id_or_name\<close>
  are \<open>u_login\<close>, \<open>u_tables\<close> and \<open>u_last_id_or_name\<close>; the last one starts as
  the empty string and later holds a dataset's metadata.
\<close>

record connection =
  client_id :: string
  secret :: string
  auth_url :: string
  query_url :: string
  u_login :: header
  u_tables :: "json list"
  u_last_id_or_name :: json

definition Connection :: "string \<Rightarrow> string \<Rightarrow> connection" where
  "Connection cid sec =
     \<lparr>client_id = cid, secret = sec,
      auth_url = ''https://api.domo.com/oauth/token?grant_type=client_credentials&scope=data'',
      query_url = ''https://api.domo.com/v1/datasets'',
      u_login = [], u_tables = [], u_last_id_or_name = JStr ''''\<rparr>"

subsection \<open>The login property\<close>

text \<open>
  Returns the cached header when it is non-empty; otherwise requests a token, builds
  the header and stores it. The value returned is the dict stored in \<^verbatim>\<open>_login\<close>
  itself, not a copy.
\<close>

definition login :: "connection \<Rightarrow> world \<Rightarrow> (error + header) \<times> connection \<times> world" where
  "login c w =
     (if u_login c \<noteq> [] then (Inr (u_login c), c, w)
      else
        (case send w (TokenRequest (auth_url c) (client_id c) (secret c)) of
           (Failed, w') \<Rightarrow> (Inl RequestError, c, w')
         | (Json body, w') \<Rightarrow>
             (case getitem body ''access_token'' of
                Inl e \<Rightarrow> (Inl e, c, w')
              | Inr token \<Rightarrow>
                  (let header = [(''Authorization'', Bearer token)]
                   in (Inr header, c\<lparr>u_login := header\<rparr>, w')))))"

subsection \<open>The tables property\<close>

text \<open>
  The \<^verbatim>\<open>while True\<close> loop: request a page, stop when it is falsy, otherwise extend
  the list and move the offset on. Nothing bounds the number of pages, so the loop may
  run forever; not returning is the value \<open>None\<close>.
\<close>

partial_function (option) tables_loop ::
  "header \<Rightarrow> string \<Rightarrow> int \<Rightarrow> int \<Rightarrow> json list \<Rightarrow> world \<Rightarrow> ((error + json list) \<times> world) option"
where
  "tables_loop header url limit offset datasets w =
     (case send w (ListRequest url offset limit header) of
        (Failed, w') \<Rightarrow> Some (Inl RequestError, w')
      | (Json chunk, w') \<Rightarrow>
          if \<not> truthy chunk then Some (Inr datasets, w')
          else
            (case iter chunk of
               Inl e \<Rightarrow> Some (Inl e, w')
             | Inr items \<Rightarrow> tables_loop header url limit (offset + limit) (datasets @ items) w'))"

definition tables ::
  "connection \<Rightarrow> world \<Rightarrow> ((error + json list) \<times> connection \<times> world) option" where
  "tables c w =
     (if u_tables c \<noteq> [] then Some (Inr (u_tables c), c, w)
      else
        (case login c w of
           (Inl e, c1, w1) \<Rightarrow> Some (Inl e, c1, w1)
         | (Inr header, c1, w1) \<Rightarrow>
             (case tables_loop header (query_url c1) 50 0 [] w1 of
                None \<Rightarrow> None
              | Some (Inl e, w2) \<Rightarrow> Some (Inl e, c1, w2)
              | Some (Inr datasets, w2) \<Rightarrow> Some (Inr datasets, c1\<lparr>u_tables := datasets\<rparr>, w2))))"

subsection \<open>find_table\<close>

text \<open>
  The \<^verbatim>\<open>for\<close> loop over the catalog: \<^verbatim>\<open>table["name"]\<close> is compared first and
  \<^verbatim>\<open>table["id"]\<close> only when the name differs. The argument is a \<^verbatim>\<open>str\<close>, so a
  field equals it exactly when the field is that string. The result is the matching
  table, or \<open>None\<close> when the loop ends (the method then returns Python's
  \<^verbatim>\<open>None\<close>).
\<close>

fun find_loop :: "json list \<Rightarrow> string \<Rightarrow> error + json option" where
  "find_loop [] id_or_name = Inr None"
| "find_loop (table # rest) id_or_name =
     (case getitem table ''name'' of
        Inl e \<Rightarrow> Inl e
      | Inr name \<Rightarrow>
          if name = JStr id_or_name then Inr (Some table)
          else
            (case getitem table ''id'' of
               Inl e \<Rightarrow> Inl e
             | Inr ident \<Rightarrow>
                 if ident = JStr id_or_name then Inr (Some table)
                 else find_loop rest id_or_name))"

definition find_table ::
  "connection \<Rightarrow> world \<Rightarrow> string \<Rightarrow> ((error + json option) \<times> connection \<times> world) option" where
  "find_table c w id_or_name =
     (case tables c w of
        None \<Rightarrow> None
      | Some (Inl e, c1, w1) \<Rightarrow> Some (Inl e, c1, w1)
      | Some (Inr ts, c1, w1) \<Rightarrow>
          (case find_loop ts id_or_name of
             Inl e \<Rightarrow> Some (Inl e, c1, w1)
           | Inr None \<Rightarrow> Some (Inr None, c1, w1)
           | Inr (Some table) \<Rightarrow>
               Some (Inr (Some table), c1\<lparr>u_last_id_or_name := table\<rparr>, w1)))"

subsection \<open>query\<close>

text \<open>
  A result record is a Python dict with JSON keys, in insertion order. Only
  \<^verbatim>\<open>None\<close>, booleans, numbers and strings are hashable. Among them the numbers are
  the same key when they have the same value, whatever their type: \<^verbatim>\<open>True\<close>,
  \<^verbatim>\<open>1\<close> and \<^verbatim>\<open>1.0\<close> are one key, \<^verbatim>\<open>False\<close>, \<^verbatim>\<open>0\<close>, \<^verbatim>\<open>0.0\<close> and
  \<^verbatim>\<open>-0.0\<close> another. \<^verbatim>\<open>nan\<close> differs from every number, itself included, but the
  parser has one \<^verbatim>\<open>nan\<close> object for every \<^verbatim>\<open>NaN\<close> it reads, and a dict finds a key
  that is the very object looked up: two \<^verbatim>\<open>nan\<close> of a response are one key. Storing
  under a key that is already present keeps the old key and its place and replaces the
  value.
\<close>

type_synonym pydict = "(json \<times> json) list"

fun hashable :: "json \<Rightarrow> bool" where
  "hashable (JList xs) = False"
| "hashable (JObj kvs) = False"
| "hashable v = True"

fun num_of :: "json \<Rightarrow> pyfloat option" where
  "num_of (JInt i) = Some (Finite i 0)"
| "num_of (JBool b) = Some (Finite (if b then 1 else 0) 0)"
| "num_of (JFloat f) = Some f"
| "num_of v = None"

fun same_number :: "pyfloat \<Rightarrow> pyfloat \<Rightarrow> bool" where
  "same_number (Finite m e) (Finite n d) =
     (m * 2 ^ nat (e - min e d) = n * 2 ^ nat (d - min e d))"
| "same_number (Infinite a) (Infinite b) = (a = b)"
| "same_number NotANumber NotANumber = True"
| "same_number x y = False"

definition key_eq :: "json \<Rightarrow> json \<Rightarrow> bool" where
  "key_eq a b =
     (case (num_of a, num_of b) of
        (Some x, Some y) \<Rightarrow> same_number x y
      | (None, None) \<Rightarrow> a = b
      | _ \<Rightarrow> False)"

fun dict_set :: "json \<Rightarrow> json \<Rightarrow> pydict \<Rightarrow> pydict" where
  "dict_set k v [] = [(k, v)]"
| "dict_set k v (p # ps) =
     (if key_eq k (fst p) then (fst p, v) # ps else p # dict_set k v ps)"

fun dict_get :: "pydict \<Rightarrow> json \<Rightarrow> json option" where
  "dict_get [] k = None"
| "dict_get (p # ps) k = (if key_eq k (fst p) then Some (snd p) else dict_get ps k)"

text \<open>\<^verbatim>\<open>dict(pairs)\<close>, started from the dict built so far.\<close>

fun dict_of :: "pydict \<Rightarrow> (json \<times> json) list \<Rightarrow> error + pydict" where
  "dict_of d [] = Inr d"
| "dict_of d (kv # kvs) =
     (if hashable (fst kv) then dict_of (dict_set (fst kv) (snd kv) d) kvs
      else Inl TypeError)"

text \<open>
  The comprehension \<^verbatim>\<open>[dict(zip(columns, row)) for row in rows]\<close>, over the items
  of \<^verbatim>\<open>rows\<close>: \<^verbatim>\<open>zip\<close> iterates both of its arguments and stops with the shorter.
\<close>

fun records :: "json \<Rightarrow> json list \<Rightarrow> error + pydict list" where
  "records columns [] = Inr []"
| "records columns (row # rows) =
     (case iter columns of
        Inl e \<Rightarrow> Inl e
      | Inr names \<Rightarrow>
          (case iter row of
             Inl e \<Rightarrow> Inl e
           | Inr cells \<Rightarrow>
               (case dict_of [] (zip names cells) of
                  Inl e \<Rightarrow> Inl e
                | Inr d \<Rightarrow>
                    (case records columns rows of
                       Inl e \<Rightarrow> Inl e
                     | Inr ds \<Rightarrow> Inr (d # ds)))))"

text \<open>The part of \<^verbatim>\<open>query\<close> after the response has arrived.\<close>

definition format_result :: "json \<Rightarrow> error + pydict list" where
  "format_result response =
     (case getitem response ''columns'' of
        Inl e \<Rightarrow> Inl e
      | Inr columns \<Rightarrow>
          (case getitem response ''rows'' of
             Inl e \<Rightarrow> Inl e
           | Inr rows \<Rightarrow>
               (case iter rows of
                  Inl e \<Rightarrow> Inl e
                | Inr rs \<Rightarrow> records columns rs)))"

text \<open>
  The choice of the dataset id, the \<^verbatim>\<open>if\<close>/\<^verbatim>\<open>elif\<close>/\<^verbatim>\<open>else\<close> of \<^verbatim>\<open>query\<close>.
  The value of \<^verbatim>\<open>find_table\<close> is dropped; the id is read from
  \<^verbatim>\<open>_last_id_or_name\<close> afterwards, whatever it holds.
\<close>

definition select_id ::
  "connection \<Rightarrow> world \<Rightarrow> string \<Rightarrow> ((error + json) \<times> connection \<times> world) option" where
  "select_id c w id_or_name =
     (if id_or_name \<noteq> [] \<and> truthy (u_last_id_or_name c) then
        (case getitem (u_last_id_or_name c) ''id'' of
           Inl e \<Rightarrow> Some (Inl e, c, w)
         | Inr ident \<Rightarrow> Some (Inr ident, c, w))
      else if id_or_name = [] \<and> \<not> truthy (u_last_id_or_name c) then
        Some (Inl (ValueError ''Must provide Dataset ID or Name.''), c, w)
      else
        (case find_table c w id_or_name of
           None \<Rightarrow> None
         | Some (Inl e, c1, w1) \<Rightarrow> Some (Inl e, c1, w1)
         | Some (Inr found, c1, w1) \<Rightarrow>
             (case getitem (u_last_id_or_name c1) ''id'' of
                Inl e \<Rightarrow> Some (Inl e, c1, w1)
              | Inr ident \<Rightarrow> Some (Inr ident, c1, w1))))"

text \<open>
  \<^verbatim>\<open>query\<close>. The local \<^verbatim>\<open>header\<close> is the dict cached in \<^verbatim>\<open>_login\<close>, so
  \<^verbatim>\<open>header['Accept'] = ...\<close> changes the cached header too: the model writes the
  updated header back to \<open>u_login\<close>. Nothing replaces that dict afterwards, so the
  header sent with the query is the cached one.
\<close>

definition query ::
  "connection \<Rightarrow> world \<Rightarrow> string \<Rightarrow> string \<Rightarrow> ((error + pydict list) \<times> connection \<times> world) option" where
  "query c w sql id_or_name =
     (case login c w of
        (Inl e, c1, w1) \<Rightarrow> Some (Inl e, c1, w1)
      | (Inr header0, c1, w1) \<Rightarrow>
          (let header = AList.update ''Accept'' (Literal ''application/json'') header0;
               c2 = c1\<lparr>u_login := header\<rparr>;
               sql1 = (if sql \<noteq> [] then sql else ''select * from table'')
           in
             (case select_id c2 w1 id_or_name of
                None \<Rightarrow> None
              | Some (Inl e, c3, w3) \<Rightarrow> Some (Inl e, c3, w3)
              | Some (Inr ident, c3, w3) \<Rightarrow>
                  (case send w3 (QueryRequest (query_url c3) ident (u_login c3) sql1) of
                     (Failed, w4) \<Rightarrow> Some (Inl RequestError, c3, w4)
                   | (Json response, w4) \<Rightarrow>
                       (case format_result response of
                          Inl e \<Rightarrow> Some (Inl e, c3, w4)
                        | Inr data \<Rightarrow> Some (Inr data, c3, w4))))))"

section \<open>Sequences of operations\<close>

text \<open>
  What a caller can do with a Connection, and the state after a sequence of such calls
  (the results and exceptions of the calls are dropped; a call that never returns ends
  the sequence with \<open>None\<close>).
\<close>

datatype operation =
    Login
  | Tables
  | FindTable string
  | Query string string

fun exec :: "operation \<Rightarrow> connection \<Rightarrow> world \<Rightarrow> (connection \<times> world) option" where
  "exec Login c w = Some (snd (login c w))"
| "exec Tables c w = map_option snd (tables c w)"
| "exec (FindTable s) c w = map_option snd (find_table c w s)"
| "exec (Query sql s) c w = map_option snd (query c w sql s)"

fun run :: "operation list \<Rightarrow> connection \<Rightarrow> world \<Rightarrow> (connection \<times> world) option" where
  "run [] c w = Some (c, w)"
| "run (op # ops) c w =
     (case exec op c w of None \<Rightarrow> None | Some (c1, w1) \<Rightarrow> run ops c1 w1)"

section \<open>Notions used in the statements\<close>

subsection \<open>Requests by kind\<close>

fun is_token :: "request \<Rightarrow> bool" where
  "is_token (TokenRequest url cid sec) = True"
| "is_token r = False"

fun is_listing :: "request \<Rightarrow> bool" where
  "is_listing (ListRequest url offset limit header) = True"
| "is_listing r = False"

fun is_query :: "request \<Rightarrow> bool" where
  "is_query (QueryRequest url ident header sql) = True"
| "is_query r = False"

text \<open>
  The listing requests among the requests sent.
\<close>

definition listings :: "world \<Rightarrow> request list" where
  "listings w = filter is_listing (sent w)"

text \<open>
  The first \<open>n\<close> listing requests of a pagination pass: offsets \<open>0\<close>, \<open>50\<close>,
  \<open>100\<close>, ..., each with limit \<open>50\<close>.
\<close>

definition pages :: "string \<Rightarrow> header \<Rightarrow> nat \<Rightarrow> request list" where
  "pages url h n = map (\<lambda>k. ListRequest url (50 * int k) 50 h) [0..<n]"

subsection \<open>What a caller sees of a call\<close>

text \<open>
  For a call that returned: its result or exception, with the requests sent by then
  (\<open>trace\<close>) or with the three caches as the call left them (\<open>caches\<close>). For a
  call of \<open>tables\<close> that returned a catalog: the catalog, and how many listing
  requests have been sent by then (\<open>listed\<close>).
\<close>

definition trace :: "('a \<times> connection \<times> world) option \<Rightarrow> ('a \<times> request list) option" where
  "trace outcome = (case outcome of None \<Rightarrow> None | Some (r, c, w) \<Rightarrow> Some (r, sent w))"

definition caches ::
  "('a \<times> connection \<times> world) option \<Rightarrow> ('a \<times> header \<times> json list \<times> json) option" where
  "caches outcome =
     (case outcome of
        None \<Rightarrow> None
      | Some (r, c, w) \<Rightarrow> Some (r, u_login c, u_tables c, u_last_id_or_name c))"

definition listed ::
  "((error + json list) \<times> connection \<times> world) option \<Rightarrow> (json list \<times> nat) option" where
  "listed outcome =
     (case outcome of
        Some (Inr ds, c, w) \<Rightarrow> Some (ds, length (listings w))
      | _ \<Rightarrow> None)"

subsection \<open>Datasets\<close>

text \<open>
  A catalog entry as the data model has it: a dict with a \<^verbatim>\<open>name\<close> and an
  \<^verbatim>\<open>id\<close>. An entry matches a string when its name or its id is that string.
\<close>

definition is_dataset :: "json \<Rightarrow> bool" where
  "is_dataset t =
     (case getitem t ''name'' of
        Inl e \<Rightarrow> False
      | Inr name \<Rightarrow> (case getitem t ''id'' of Inl e \<Rightarrow> False | Inr ident \<Rightarrow> True))"

definition matches :: "string \<Rightarrow> json \<Rightarrow> bool" where
  "matches s t = (getitem t ''name'' = Inr (JStr s) \<or> getitem t ''id'' = Inr (JStr s))"

section \<open>Remote services and Connections used as examples\<close>

text \<open>
  A service with a fixed catalog: it grants the token \<open>tok\<close>, serves the page
  \<^verbatim>\<open>catalog[offset : offset + limit]\<close> for a listing request, and answers every query
  with \<open>result\<close>.
\<close>

definition serve :: "json \<Rightarrow> json list \<Rightarrow> json \<Rightarrow> request \<Rightarrow> response" where
  "serve tok catalog result r =
     (case r of
        TokenRequest url cid sec \<Rightarrow> Json (JObj [(''access_token'', tok)])
      | ListRequest url offset limit header \<Rightarrow>
          Json (JList (take (nat limit) (drop (nat offset) catalog)))
      | QueryRequest url ident header sql \<Rightarrow> Json result)"

definition service :: "json \<Rightarrow> json list \<Rightarrow> json \<Rightarrow> world" where
  "service tok catalog result = \<lparr>remote = (\<lambda>history. serve tok catalog result), sent = []\<rparr>"

text \<open>
  Metadata of a sample dataset, with an id and a name of its own for each \<open>k\<close>.
\<close>

definition sample_dataset :: "nat \<Rightarrow> json" where
  "sample_dataset k =
     JObj [(''id'', JStr (replicate (Suc k) CHR ''a'')),
           (''name'', JStr (replicate (Suc k) CHR ''n'')),
           (''rows'', JInt (int k)), (''columns'', JInt 2)]"

text \<open>
  The example catalog and the example query response, and a fresh Connection facing
  a service that holds them.
\<close>

definition sample_catalog :: "json list" where
  "sample_catalog =
     [JObj [(''id'', JStr ''A1''), (''name'', JStr ''Sales'')],
      JObj [(''id'', JStr ''A2''), (''name'', JStr ''Inventory'')]]"

definition sample_result :: json where
  "sample_result =
     JObj [(''columns'', JList [JStr ''id'', JStr ''val'']),
           (''rows'', JList [JList [JInt 1, JStr ''x''], JList [JInt 2, JStr ''y'']])]"

definition sample_connection :: connection where
  "sample_connection = Connection ''client'' ''secret''"

definition sample_world :: world where
  "sample_world = service (JStr ''t'') sample_catalog sample_result"

text \<open>
  A service that breaks down in the middle of a pagination pass: it serves the first
  page and fails on every listing request with a later offset.
\<close>

definition serve_flaky :: "json \<Rightarrow> json list \<Rightarrow> json \<Rightarrow> request \<Rightarrow> response" where
  "serve_flaky tok catalog result r =
     (case r of
        ListRequest url offset limit header \<Rightarrow>
          if 50 \<le> offset then Failed else serve tok catalog result r
      | _ \<Rightarrow> serve tok catalog result r)"

definition flaky_world :: world where
  "flaky_world =
     \<lparr>remote = (\<lambda>history. serve_flaky (JStr ''t'') sample_catalog sample_result), sent = []\<rparr>"

text \<open>
  A service whose catalog changes: it is empty until the first listing request has
  been answered, and holds the example catalog from then on.
\<close>

definition serve_later :: "request list \<Rightarrow> request \<Rightarrow> response" where
  "serve_later history r =
     (if filter is_listing history = [] then serve (JStr ''t'') [] sample_result r
      else serve (JStr ''t'') sample_catalog sample_result r)"

definition later_world :: world where
  "later_world = \<lparr>remote = serve_later, sent = []\<rparr>"

text \<open>
  The example Connection and world after \<^verbatim>\<open>find_table("A1")\<close>: header and catalog are
  cached, and the first dataset is the last resolved one.
\<close>

definition resolved_connection :: connection where
  "resolved_connection =
     sample_connection\<lparr>u_login := [(''Authorization'', Bearer (JStr ''t''))],
       u_tables := sample_catalog,
       u_last_id_or_name := JObj [(''id'', JStr ''A1''), (''name'', JStr ''Sales'')]\<rparr>"

definition resolved_world :: world where
  "resolved_world =
     sample_world\<lparr>sent :=
       [TokenRequest (auth_url sample_connection) ''client'' ''secret'',
        ListRequest (query_url sample_connection) 0 50 [(''Authorization'', Bearer (JStr ''t''))],
        ListRequest (query_url sample_connection) 50 50 [(''Authorization'', Bearer (JStr ''t''))]]\<rparr>"

text \<open>
  The Connection after \<^verbatim>\<open>query(id_or_name="A1")\<close> on the example Connection, and the
  requests sent by then: the header has its \<^verbatim>\<open>Accept\<close> entry, the catalog is cached
  and the first dataset is resolved; a token request, two listing requests and the query
  request have been sent.
\<close>

definition queried_connection :: connection where
  "queried_connection =
     sample_connection\<lparr>u_login :=
         [(''Authorization'', Bearer (JStr ''t'')), (''Accept'', Literal ''application/json'')],
       u_tables := sample_catalog,
       u_last_id_or_name := JObj [(''id'', JStr ''A1''), (''name'', JStr ''Sales'')]\<rparr>"

definition queried_requests :: "request list" where
  "queried_requests =
     [TokenRequest (auth_url sample_connection) ''client'' ''secret'',
      ListRequest (query_url sample_connection) 0 50
        [(''Authorization'', Bearer (JStr ''t'')), (''Accept'', Literal ''application/json'')],
      ListRequest (query_url sample_connection) 50 50
        [(''Authorization'', Bearer (JStr ''t'')), (''Accept'', Literal ''application/json'')],
      QueryRequest (query_url sample_connection) (JStr ''A1'')
        [(''Authorization'', Bearer (JStr ''t'')), (''Accept'', Literal ''application/json'')]
        ''select * from table'']"

text \<open>
  A query response that names a column twice.
\<close>

definition twice_result :: json where
  "twice_result =
     JObj [(''columns'', JList [JStr ''id'', JStr ''id'']),
           (''rows'', JList [JList [JInt 1, JInt 2]])]"

text \<open>A query response with a row that has fewer cells than there are columns.\<close>

definition short_result :: json where
  "short_result =
     JObj [(''columns'', JList [JStr ''id'', JStr ''val'']),
           (''rows'', JList [JList [JInt 1]])]"

text \<open>A query response with a float among its cells, \<^verbatim>\<open>2.5\<close>.\<close>

definition priced_result :: json where
  "priced_result =
     JObj [(''columns'', JList [JStr ''id'', JStr ''price'']),
           (''rows'', JList [JList [JInt 1, JFloat (Finite 5 (- 1))]])]"

text \<open>A service that is down: every request fails.\<close>

definition down_world :: world where
  "down_world = \<lparr>remote = (\<lambda>history r. Failed), sent = []\<rparr>"

section \<open>Facts about the operations\<close>

subsection \<open>login\<close>

lemma login_cached: "u_login c \<noteq> [] \<Longrightarrow> login c w = (Inr (u_login c), c, w)"
  by (simp add: login_def)

lemma login_granted:
  "u_login c = [] \<Longrightarrow>
   remote w (sent w) (TokenRequest (auth_url c) (client_id c) (secret c)) = Json body \<Longrightarrow>
   getitem body ''access_token'' = Inr token \<Longrightarrow>
   login c w =
     (Inr [(''Authorization'', Bearer token)],
      c\<lparr>u_login := [(''Authorization'', Bearer token)]\<rparr>,
      w\<lparr>sent := sent w @ [TokenRequest (auth_url c) (client_id c) (secret c)]\<rparr>)"
  by (simp add: login_def send_def Let_def)

lemma login_cases:
  assumes "login c w = (r, c1, w1)"
  obtains (cached) "u_login c \<noteq> []" "r = Inr (u_login c)" "c1 = c" "w1 = w"
  | (failed) e where "u_login c = []" "r = Inl e" "c1 = c"
      "w1 = w\<lparr>sent := sent w @ [TokenRequest (auth_url c) (client_id c) (secret c)]\<rparr>"
  | (granted) token where "u_login c = []" "r = Inr [(''Authorization'', Bearer token)]"
      "c1 = c\<lparr>u_login := [(''Authorization'', Bearer token)]\<rparr>"
      "w1 = w\<lparr>sent := sent w @ [TokenRequest (auth_url c) (client_id c) (secret c)]\<rparr>"
proof (cases "u_login c = []")
  case False
  with assms have "r = Inr (u_login c)" "c1 = c" "w1 = w" by (auto simp: login_def)
  with False show ?thesis by (rule cached)
next
  case True
  let ?req = "TokenRequest (auth_url c) (client_id c) (secret c)"
  show ?thesis
  proof (cases "remote w (sent w) ?req")
    case Failed
    with assms True have "r = Inl RequestError" "c1 = c" "w1 = w\<lparr>sent := sent w @ [?req]\<rparr>"
      by (auto simp: login_def send_def)
    with True show ?thesis by (rule failed)
  next
    case (Json body)
    show ?thesis
    proof (cases "getitem body ''access_token''")
      case (Inl e)
      with assms True Json have "r = Inl e" "c1 = c" "w1 = w\<lparr>sent := sent w @ [?req]\<rparr>"
        by (auto simp: login_def send_def)
      with True show ?thesis by (rule failed)
    next
      case (Inr token)
      with assms True Json have "r = Inr [(''Authorization'', Bearer token)]"
        "c1 = c\<lparr>u_login := [(''Authorization'', Bearer token)]\<rparr>"
        "w1 = w\<lparr>sent := sent w @ [?req]\<rparr>"
        by (auto simp: login_def send_def Let_def)
      with True show ?thesis by (rule granted)
    qed
  qed
qed

lemma login_fields:
  assumes "login c w = (r, c1, w1)"
  shows "client_id c1 = client_id c \<and> secret c1 = secret c \<and> auth_url c1 = auth_url c \<and>
         query_url c1 = query_url c \<and> u_tables c1 = u_tables c \<and>
         u_last_id_or_name c1 = u_last_id_or_name c \<and> remote w1 = remote w"
  using assms by (rule login_cases) simp_all

lemma login_sent:
  assumes "login c w = (r, c1, w1)"
  shows "\<exists>ls. sent w1 = sent w @ ls \<and> list_all is_token ls"
  using assms by (rule login_cases) simp_all

lemma login_header:
  assumes "login c w = (r, c1, w1)"
  shows "u_login c1 = u_login c \<or>
         (u_login c = [] \<and> (\<exists>t. u_login c1 = [(''Authorization'', Bearer t)]))"
  using assms by (rule login_cases) simp_all

text \<open>A granted authentication caches the header it returns.\<close>

lemma login_granted_or_cached:
  assumes "login c w = (Inr h, c1, w1)"
  shows "c1 = c\<lparr>u_login := h\<rparr>" and "h \<noteq> []" and "u_login c = [] \<or> c1 = c"
  using assms by (rule login_cases; simp)+

lemma listings_append_tokens:
  "sent w1 = sent w @ ls \<Longrightarrow> list_all is_token ls \<Longrightarrow> listings w1 = listings w"
proof -
  assume s: "sent w1 = sent w @ ls" and t: "list_all is_token ls"
  from t have "filter is_listing ls = []"
    by (induction ls) (auto elim: is_token.elims)
  with s show ?thesis by (simp add: listings_def)
qed

lemma login_catalog_kept:
  assumes "login c w = (r, c1, w1)"
  shows "u_tables c1 = u_tables c \<and> listings w1 = listings w"
proof -
  from login_sent[OF assms] obtain ls where "sent w1 = sent w @ ls" "list_all is_token ls"
    by auto
  from listings_append_tokens[OF this] login_fields[OF assms] show ?thesis by simp
qed

subsection \<open>The listing loop\<close>

text \<open>One turn of the loop, by the answer to its request.\<close>

lemma tables_loop_failed:
  "remote w (sent w) (ListRequest u off l h) = Failed \<Longrightarrow>
   tables_loop h u l off d w =
     Some (Inl RequestError, w\<lparr>sent := sent w @ [ListRequest u off l h]\<rparr>)"
  by (subst tables_loop.simps) (simp add: send_def)

lemma tables_loop_stop:
  "remote w (sent w) (ListRequest u off l h) = Json chunk \<Longrightarrow> \<not> truthy chunk \<Longrightarrow>
   tables_loop h u l off d w = Some (Inr d, w\<lparr>sent := sent w @ [ListRequest u off l h]\<rparr>)"
  by (subst tables_loop.simps) (simp add: send_def)

lemma tables_loop_bad_chunk:
  "remote w (sent w) (ListRequest u off l h) = Json chunk \<Longrightarrow> truthy chunk \<Longrightarrow>
   iter chunk = Inl e \<Longrightarrow>
   tables_loop h u l off d w = Some (Inl e, w\<lparr>sent := sent w @ [ListRequest u off l h]\<rparr>)"
  by (subst tables_loop.simps) (simp add: send_def)

lemma tables_loop_next:
  "remote w (sent w) (ListRequest u off l h) = Json chunk \<Longrightarrow> truthy chunk \<Longrightarrow>
   iter chunk = Inr items \<Longrightarrow>
   tables_loop h u l off d w =
     tables_loop h u l (off + l) (d @ items) (w\<lparr>sent := sent w @ [ListRequest u off l h]\<rparr>)"
  by (subst tables_loop.simps) (simp add: send_def)

lemma map_upt_shift: "map f [0..<Suc n] = f 0 # map (\<lambda>k. f (Suc k)) [0..<n]"
proof -
  have "[0..<Suc n] = 0 # map Suc [0..<n]"
    by (simp add: upt_conv_Cons map_Suc_upt del: upt_Suc)
  then show ?thesis by (simp add: comp_def del: upt_Suc)
qed

lemma pages_count:
  "off < n \<Longrightarrow> (n - off + 49) div 50 + 1 = Suc ((n - (off + 50) + 49) div 50 + 1)"
  for n off :: nat
  by (cases "off + 50 \<le> n") (simp_all add: div_add_self2 le_div_geq)

text \<open>
  From offset \<open>off\<close> on, the loop collects the rest of the catalog and sends one
  request per page left, the last of them for the empty page that ends it.
\<close>

lemma tables_loop_serve:
  "remote w = (\<lambda>history. serve tok ds res) \<Longrightarrow>
   tables_loop h u 50 (int off) acc w =
     Some (Inr (acc @ drop off ds),
           w\<lparr>sent := sent w @
              map (\<lambda>k. ListRequest u (int off + 50 * int k) 50 h)
                [0..<(length ds - off + 49) div 50 + 1]\<rparr>)"
proof (induction "length ds - off" arbitrary: off acc w rule: less_induct)
  case less
  let ?req = "ListRequest u (int off) 50 h"
  let ?w1 = "w\<lparr>sent := sent w @ [?req]\<rparr>"
  have page: "remote w (sent w) ?req = Json (JList (take 50 (drop off ds)))"
    by (simp add: less.prems serve_def)
  show ?case
  proof (cases "off < length ds")
    case False
    then have empty: "drop off ds = []" by simp
    from page have "remote w (sent w) ?req = Json (JList [])" by (simp add: empty)
    then have "tables_loop h u 50 (int off) acc w = Some (Inr acc, ?w1)"
      by (rule tables_loop_stop) simp
    with False show ?thesis by (simp add: empty)
  next
    case True
    have step: "tables_loop h u 50 (int off) acc w =
        tables_loop h u 50 (int off + 50) (acc @ take 50 (drop off ds)) ?w1"
      using True by (intro tables_loop_next[OF page]) simp_all
    have "remote ?w1 = (\<lambda>history. serve tok ds res)" by (simp add: less.prems)
    moreover have "length ds - (off + 50) < length ds - off" using True by simp
    ultimately have IH:
      "tables_loop h u 50 (int (off + 50)) (acc @ take 50 (drop off ds)) ?w1 =
       Some (Inr ((acc @ take 50 (drop off ds)) @ drop (off + 50) ds),
             ?w1\<lparr>sent := sent ?w1 @
                map (\<lambda>k. ListRequest u (int (off + 50) + 50 * int k) 50 h)
                  [0..<(length ds - (off + 50) + 49) div 50 + 1]\<rparr>)"
      by (rule less.hyps[rotated])
    have data: "(acc @ take 50 (drop off ds)) @ drop (off + 50) ds = acc @ drop off ds"
      by (simp add: add.commute[of off 50] flip: drop_drop)
    have reqs: "map (\<lambda>k. ListRequest u (int off + 50 * int k) 50 h)
                  [0..<(length ds - off + 49) div 50 + 1] =
                ?req # map (\<lambda>k. ListRequest u (int (off + 50) + 50 * int k) 50 h)
                  [0..<(length ds - (off + 50) + 49) div 50 + 1]"
      by (simp only: pages_count[OF True] map_upt_shift) (simp add: algebra_simps)
    have cast: "int off + 50 = int (off + 50)" by simp
    have "tables_loop h u 50 (int off) acc w =
        tables_loop h u 50 (int (off + 50)) (acc @ take 50 (drop off ds)) ?w1"
      by (simp only: step cast)
    also note IH
    finally show ?thesis by (simp only: data reqs) simp
  qed
qed

text \<open>
  A pagination whose first \<open>k\<close> requests are answered with non-empty pages and whose
  next request fails ends with that failure, after \<open>k + 1\<close> requests.
\<close>

lemma tables_loop_fails_at:
  assumes "\<And>j. j < k \<Longrightarrow> \<exists>chunk items.
             remote w (sent w @ map (\<lambda>i. ListRequest u (off + l * int i) l h) [0..<j])
               (ListRequest u (off + l * int j) l h) = Json chunk \<and>
             truthy chunk \<and> iter chunk = Inr items"
    and "remote w (sent w @ map (\<lambda>i. ListRequest u (off + l * int i) l h) [0..<k])
           (ListRequest u (off + l * int k) l h) = Failed"
  shows "tables_loop h u l off acc w =
           Some (Inl RequestError,
                 w\<lparr>sent := sent w @ map (\<lambda>i. ListRequest u (off + l * int i) l h) [0..<Suc k]\<rparr>)"
  using assms
proof (induction k arbitrary: off acc w)
  case 0
  from 0(2) have "remote w (sent w) (ListRequest u off l h) = Failed" by simp
  from tables_loop_failed[OF this] show ?case by simp
next
  case (Suc k)
  let ?R = "\<lambda>x. ListRequest u x l h"
  let ?w = "w\<lparr>sent := sent w @ [?R off]\<rparr>"
  have shift: "?R off # map (\<lambda>i. ?R (off + l + l * int i)) [0..<j] =
               map (\<lambda>i. ?R (off + l * int i)) [0..<Suc j]" for j
    by (subst map_upt_shift) (simp add: algebra_simps)
  from Suc.prems(1)[of 0] obtain chunk items where
    first: "remote w (sent w) (?R off) = Json chunk" "truthy chunk" "iter chunk = Inr items"
    by auto
  have good: "\<exists>chunk items.
             remote ?w (sent ?w @ map (\<lambda>i. ?R (off + l + l * int i)) [0..<j])
               (?R (off + l + l * int j)) = Json chunk \<and>
             truthy chunk \<and> iter chunk = Inr items" if "j < k" for j
  proof -
    from that have "Suc j < Suc k" by simp
    from Suc.prems(1)[OF this] obtain chunk items where
      "remote w (sent w @ map (\<lambda>i. ?R (off + l * int i)) [0..<Suc j])
         (?R (off + l * int (Suc j))) = Json chunk" "truthy chunk" "iter chunk = Inr items"
      by blast
    then show ?thesis by (simp only: shift[symmetric]) (simp add: algebra_simps)
  qed
  have bad: "remote ?w (sent ?w @ map (\<lambda>i. ?R (off + l + l * int i)) [0..<k])
               (?R (off + l + l * int k)) = Failed"
    using Suc.prems(2) by (simp only: shift[symmetric]) (simp add: algebra_simps)
  have "tables_loop h u l off acc w = tables_loop h u l (off + l) (acc @ items) ?w"
    by (rule tables_loop_next[OF first])
  also have "\<dots> = Some (Inl RequestError,
       ?w\<lparr>sent := sent ?w @ map (\<lambda>i. ?R (off + l + l * int i)) [0..<Suc k]\<rparr>)"
    by (rule Suc.IH[OF good bad])
  also have "?w\<lparr>sent := sent ?w @ map (\<lambda>i. ?R (off + l + l * int i)) [0..<Suc k]\<rparr> =
       w\<lparr>sent := sent w @ map (\<lambda>i. ?R (off + l * int i)) [0..<Suc (Suc k)]\<rparr>"
    by (simp only: shift[of "Suc k", symmetric]) simp
  finally show ?case .
qed

lemma listings_pages: "filter is_listing (pages url h n) = pages url h n"
  by (simp add: pages_def filter_map comp_def)

lemma length_pages: "length (pages url h n) = n"
  by (simp add: pages_def)

lemma tables_loop_sent:
  assumes "tables_loop h u l off d w = Some y"
  shows "remote (snd y) = remote w \<and>
         (\<exists>ls. sent (snd y) = sent w @ ls \<and> ls \<noteq> [] \<and> list_all is_listing ls)"
proof (rule tables_loop.raw_induct
    [where P = "\<lambda>h u l off d w y. remote (snd y) = remote w \<and>
         (\<exists>ls. sent (snd y) = sent w @ ls \<and> ls \<noteq> [] \<and> list_all is_listing ls)", OF _ assms])
  fix loop h u l off d w y
  assume IH: "\<And>h u l off d w y. loop h u l off d w = Some y \<Longrightarrow>
      remote (snd y) = remote w \<and>
         (\<exists>ls. sent (snd y) = sent w @ ls \<and> ls \<noteq> [] \<and> list_all is_listing ls)"
    and body: "(case send w (ListRequest u off l h) of
        (Failed, w') \<Rightarrow> Some (Inl RequestError, w')
      | (Json chunk, w') \<Rightarrow>
          (if \<not> truthy chunk then Some (Inr d, w')
           else (case iter chunk of
               Inl e \<Rightarrow> Some (Inl e, w')
             | Inr items \<Rightarrow> loop h u l (off + l) (d @ items) w'))) = Some y"
  let ?w1 = "w\<lparr>sent := sent w @ [ListRequest u off l h]\<rparr>"
  show "remote (snd y) = remote w \<and>
         (\<exists>ls. sent (snd y) = sent w @ ls \<and> ls \<noteq> [] \<and> list_all is_listing ls)"
  proof (cases "remote w (sent w) (ListRequest u off l h)")
    case Failed
    with body have "snd y = ?w1" by (auto simp: send_def)
    then show ?thesis by simp
  next
    case (Json chunk)
    show ?thesis
    proof (cases "truthy chunk")
      case False
      with body Json have "snd y = ?w1" by (auto simp: send_def)
      then show ?thesis by simp
    next
      case True
      show ?thesis
      proof (cases "iter chunk")
        case (Inl e)
        with body Json True have "snd y = ?w1" by (auto simp: send_def)
        then show ?thesis by simp
      next
        case (Inr items)
        with body Json True have "loop h u l (off + l) (d @ items) ?w1 = Some y"
          by (simp add: send_def)
        from IH[OF this] obtain ls where "remote (snd y) = remote w"
          "sent (snd y) = (sent w @ [ListRequest u off l h]) @ ls" "list_all is_listing ls"
          by auto
        then show ?thesis by simp
      qed
    qed
  qed
qed

subsection \<open>tables\<close>

lemma tables_fresh_serve:
  "tables (Connection cid sec) (service tok ds res) =
     Some (Inr ds,
           (Connection cid sec)\<lparr>u_login := [(''Authorization'', Bearer tok)], u_tables := ds\<rparr>,
           (service tok ds res)\<lparr>sent :=
              TokenRequest (auth_url (Connection cid sec)) cid sec #
              pages (query_url (Connection cid sec)) [(''Authorization'', Bearer tok)]
                ((length ds + 49) div 50 + 1)\<rparr>)"
proof -
  let ?c = "Connection cid sec" and ?w = "service tok ds res"
  let ?h = "[(''Authorization'', Bearer tok)]"
  let ?w1 = "?w\<lparr>sent := sent ?w @ [TokenRequest (auth_url ?c) (client_id ?c) (secret ?c)]\<rparr>"
  have l: "login ?c ?w = (Inr ?h, ?c\<lparr>u_login := ?h\<rparr>, ?w1)"
    by (rule login_granted[where body = "JObj [(''access_token'', tok)]"])
      (simp_all add: Connection_def service_def serve_def)
  have "remote ?w1 = (\<lambda>history. serve tok ds res)" by (simp add: service_def)
  from tables_loop_serve[OF this, of ?h "query_url ?c" 0 "[]"]
  have loop: "tables_loop ?h (query_url ?c) 50 0 [] ?w1 =
     Some (Inr ds, ?w1\<lparr>sent := sent ?w1 @ pages (query_url ?c) ?h ((length ds + 49) div 50 + 1)\<rparr>)"
    by (simp add: pages_def)
  have "u_tables ?c = []" by (simp add: Connection_def)
  then show ?thesis
    by (simp add: tables_def l loop) (simp add: Connection_def service_def)
qed

lemma tables_cached: "u_tables c \<noteq> [] \<Longrightarrow> tables c w = Some (Inr (u_tables c), c, w)"
  by (simp add: tables_def)

lemma tables_cases:
  assumes "tables c w = Some (r, c1, w1)"
  obtains (cached) "u_tables c \<noteq> []" "r = Inr (u_tables c)" "c1 = c" "w1 = w"
  | (login_failed) e where "u_tables c = []" "login c w = (Inl e, c1, w1)" "r = Inl e"
  | (loop_failed) e h w0 where "u_tables c = []" "login c w = (Inr h, c1, w0)"
      "tables_loop h (query_url c1) 50 0 [] w0 = Some (Inl e, w1)" "r = Inl e"
  | (fetched) ds h c0 w0 where "u_tables c = []" "login c w = (Inr h, c0, w0)"
      "tables_loop h (query_url c0) 50 0 [] w0 = Some (Inr ds, w1)" "r = Inr ds"
      "c1 = c0\<lparr>u_tables := ds\<rparr>"
proof (cases "u_tables c = []")
  case False
  with assms have "r = Inr (u_tables c)" "c1 = c" "w1 = w" by (auto simp: tables_def)
  with False show ?thesis by (rule cached)
next
  case True
  obtain r0 c0 w0 where l: "login c w = (r0, c0, w0)" by (cases "login c w") auto
  show ?thesis
  proof (cases r0)
    case (Inl e)
    with assms True l have "login c w = (Inl e, c1, w1)" "r = Inl e"
      by (auto simp: tables_def)
    with True show ?thesis by (rule login_failed)
  next
    case (Inr h)
    with assms True l obtain y where y: "tables_loop h (query_url c0) 50 0 [] w0 = Some y"
      by (cases "tables_loop h (query_url c0) 50 0 [] w0") (auto simp: tables_def)
    obtain r2 w2 where y2: "y = (r2, w2)" by (cases y) auto
    show ?thesis
    proof (cases r2)
      case (Inl e)
      with assms True l Inr y y2 have "c1 = c0" "w1 = w2" "r = Inl e"
        by (auto simp: tables_def)
      with True l Inr y y2 Inl show ?thesis by (intro loop_failed[of h w0 e]) auto
    next
      case (Inr ds)
      with assms True l \<open>r0 = Inr h\<close> y y2 have "c1 = c0\<lparr>u_tables := ds\<rparr>" "w1 = w2" "r = Inr ds"
        by (auto simp: tables_def)
      with True l \<open>r0 = Inr h\<close> y y2 Inr show ?thesis by (intro fetched[of h c0 w0 ds]) auto
    qed
  qed
qed

lemma tables_fields:
  assumes "tables c w = Some (r, c1, w1)"
  shows "client_id c1 = client_id c \<and> secret c1 = secret c \<and> auth_url c1 = auth_url c \<and>
         query_url c1 = query_url c \<and>
         u_last_id_or_name c1 = u_last_id_or_name c \<and> remote w1 = remote w"
  using assms
proof (cases rule: tables_cases)
  case cached
  then show ?thesis by simp
next
  case (login_failed e)
  from login_fields[OF this(2)] show ?thesis by simp
next
  case (loop_failed e h w0)
  from login_fields[OF this(2)] tables_loop_sent[OF this(3)] show ?thesis by simp
next
  case (fetched ds h c0 w0)
  from login_fields[OF this(2)] tables_loop_sent[OF this(3)] fetched(5) show ?thesis by simp
qed

lemma not_query_token: "list_all is_token ls \<Longrightarrow> list_all (\<lambda>q. \<not> is_query q) ls"
  by (induction ls) (auto elim: is_token.elims)

lemma not_query_listing: "list_all is_listing ls \<Longrightarrow> list_all (\<lambda>q. \<not> is_query q) ls"
  by (induction ls) (auto elim: is_listing.elims)

lemma tables_sent:
  assumes "tables c w = Some (r, c1, w1)"
  shows "\<exists>ls. sent w1 = sent w @ ls \<and> list_all (\<lambda>q. \<not> is_query q) ls"
  using assms
proof (cases rule: tables_cases)
  case cached
  then show ?thesis by simp
next
  case (login_failed e)
  from login_sent[OF this(2)] show ?thesis by (auto dest: not_query_token)
next
  case (loop_failed e h w0)
  from login_sent[OF this(2)] obtain ls where "sent w0 = sent w @ ls" "list_all is_token ls"
    by auto
  moreover from tables_loop_sent[OF loop_failed(3)] obtain ls' where
    "sent w1 = sent w0 @ ls'" "list_all is_listing ls'" by auto
  ultimately have "sent w1 = sent w @ (ls @ ls')" "list_all (\<lambda>q. \<not> is_query q) (ls @ ls')"
    by (auto dest: not_query_token not_query_listing)
  then show ?thesis by blast
next
  case (fetched ds h c0 w0)
  from login_sent[OF this(2)] obtain ls where "sent w0 = sent w @ ls" "list_all is_token ls"
    by auto
  moreover from tables_loop_sent[OF fetched(3)] obtain ls' where
    "sent w1 = sent w0 @ ls'" "list_all is_listing ls'" by auto
  ultimately have "sent w1 = sent w @ (ls @ ls')" "list_all (\<lambda>q. \<not> is_query q) (ls @ ls')"
    by (auto dest: not_query_token not_query_listing)
  then show ?thesis by blast
qed

text \<open>
  Whatever makes \<open>tables\<close> fail, the catalog was not cached and is not cached
  afterwards, and nothing but the header can have changed.
\<close>

lemma tables_failure_frame:
  assumes "tables c w = Some (Inl e, c1, w1)"
  shows "u_tables c = [] \<and> u_tables c1 = [] \<and>
         u_last_id_or_name c1 = u_last_id_or_name c \<and>
         (c1 = c \<or>
          (u_login c = [] \<and> (\<exists>token. c1 = c\<lparr>u_login := [(''Authorization'', Bearer token)]\<rparr>)))"
proof -
  from assms have uncached: "u_tables c = []"
    by (auto simp: tables_def split: if_splits)
  obtain r c0 w0 where l: "login c w = (r, c0, w0)" by (cases "login c w") auto
  from assms uncached l have "c1 = c0"
    by (auto simp: tables_def split: sum.splits option.splits prod.splits)
  with l uncached show ?thesis by (elim login_cases) auto
qed

lemma tables_serve_cached:
  assumes "u_tables c = []" and "u_login c \<noteq> []"
    and "remote w = (\<lambda>history. serve tok ds res)"
  shows "tables c w =
     Some (Inr ds, c\<lparr>u_tables := ds\<rparr>,
           w\<lparr>sent := sent w @
             pages (query_url c) (u_login c) ((length ds + 49) div 50 + 1)\<rparr>)"
proof -
  from tables_loop_serve[OF assms(3), of "u_login c" "query_url c" 0 "[]"]
  have loop: "tables_loop (u_login c) (query_url c) 50 0 [] w =
     Some (Inr ds, w\<lparr>sent := sent w @
             pages (query_url c) (u_login c) ((length ds + 49) div 50 + 1)\<rparr>)"
    by (simp add: pages_def)
  show ?thesis
    by (simp add: tables_def assms(1) login_cached[OF assms(2)] loop)
qed

lemma tables_header:
  assumes "tables c w = Some (r, c1, w1)"
  shows "u_login c1 = u_login c \<or>
         (u_login c = [] \<and> (\<exists>t. u_login c1 = [(''Authorization'', Bearer t)]))"
  using assms
proof (cases rule: tables_cases)
  case cached
  then show ?thesis by simp
next
  case (login_failed e)
  from login_header[OF this(2)] show ?thesis .
next
  case (loop_failed e h w0)
  from login_header[OF this(2)] show ?thesis .
next
  case (fetched ds h c0 w0)
  from login_header[OF this(2)] fetched(5) show ?thesis by simp
qed

subsection \<open>find_table\<close>

lemma find_loop_datasets:
  "list_all is_dataset ds \<Longrightarrow> find_loop ds s = Inr (find (matches s) ds)"
  by (induction ds) (auto simp: is_dataset_def matches_def split: sum.splits)

lemma find_loop_name_first:
  "getitem t ''name'' = Inr (JStr s) \<Longrightarrow> find_loop (t # rest) s = Inr (Some t)"
  by simp

lemma find_loop_then_id:
  "getitem t ''name'' = Inr name \<Longrightarrow> name \<noteq> JStr s \<Longrightarrow> getitem t ''id'' = Inr (JStr s) \<Longrightarrow>
   find_loop (t # rest) s = Inr (Some t)"
  by simp

lemma find_table_fields:
  assumes "find_table c w s = Some (r, c1, w1)"
  shows "client_id c1 = client_id c \<and> secret c1 = secret c \<and> auth_url c1 = auth_url c \<and>
         query_url c1 = query_url c \<and> remote w1 = remote w \<and>
         (\<exists>ls. sent w1 = sent w @ ls \<and> list_all (\<lambda>q. \<not> is_query q) ls)"
proof -
  from assms obtain r0 c0 w0 where t: "tables c w = Some (r0, c0, w0)"
    by (cases "tables c w") (auto simp: find_table_def)
  from assms t have "w1 = w0" "c1 = c0 \<or> (\<exists>t. c1 = c0\<lparr>u_last_id_or_name := t\<rparr>)"
    by (auto simp: find_table_def split: sum.splits option.splits)
  with tables_fields[OF t] tables_sent[OF t] show ?thesis by auto
qed

lemma find_table_header:
  assumes "find_table c w s = Some (r, c1, w1)"
  shows "u_login c1 = u_login c \<or>
         (u_login c = [] \<and> (\<exists>t. u_login c1 = [(''Authorization'', Bearer t)]))"
proof -
  from assms obtain r0 c0 w0 where t: "tables c w = Some (r0, c0, w0)"
    by (cases "tables c w") (auto simp: find_table_def)
  from assms t have "c1 = c0 \<or> (\<exists>t. c1 = c0\<lparr>u_last_id_or_name := t\<rparr>)"
    by (auto simp: find_table_def split: sum.splits option.splits)
  with tables_header[OF t] show ?thesis by auto
qed

lemma find_table_catalog_kept:
  assumes "find_table c w s = Some (r, c1, w1)" and "u_tables c \<noteq> []"
  shows "u_tables c1 = u_tables c \<and> u_login c1 = u_login c \<and> w1 = w"
  using assms
  by (auto simp: find_table_def tables_cached split: sum.splits option.splits)

subsection \<open>Records\<close>

lemma key_eq_str [simp]: "key_eq (JStr a) (JStr b) = (a = b)"
  by (simp add: key_eq_def)

lemma dict_set_new:
  "k \<notin> set ks \<Longrightarrow> length vs = length ks \<Longrightarrow>
   dict_set (JStr k) v (zip (map JStr ks) vs) = zip (map JStr ks) vs @ [(JStr k, v)]"
proof (induction ks arbitrary: vs)
  case Nil
  then show ?case by simp
next
  case (Cons a ks)
  then show ?case by (cases vs) auto
qed

lemma dict_of_distinct:
  "distinct (ks0 @ ks) \<Longrightarrow> length vs0 = length ks0 \<Longrightarrow>
   dict_of (zip (map JStr ks0) vs0) (zip (map JStr ks) vs) =
     Inr (zip (map JStr ks0) vs0 @ zip (map JStr ks) vs)"
proof (induction ks arbitrary: vs ks0 vs0)
  case Nil
  then show ?case by simp
next
  case (Cons k ks)
  show ?case
  proof (cases vs)
    case Nil
    then show ?thesis by simp
  next
    case (Cons v vs')
    from Cons.prems have new: "k \<notin> set ks0" by simp
    from Cons.prems have d: "distinct ((ks0 @ [k]) @ ks)" by simp
    from Cons.prems have l: "length (vs0 @ [v]) = length (ks0 @ [k])" by simp
    have "dict_of (zip (map JStr ks0) vs0) (zip (map JStr (k # ks)) vs) =
          dict_of (zip (map JStr (ks0 @ [k])) (vs0 @ [v])) (zip (map JStr ks) vs')"
      using Cons.prems(2) by (simp add: Cons dict_set_new[OF new])
    also have "\<dots> = Inr (zip (map JStr (ks0 @ [k])) (vs0 @ [v]) @ zip (map JStr ks) vs')"
      by (rule Cons.IH[OF d l])
    finally show ?thesis using Cons.prems(2) by (simp add: Cons)
  qed
qed

lemma records_distinct:
  "distinct names \<Longrightarrow>
   records (JList (map JStr names)) (map JList rows) =
     Inr (map (\<lambda>cells. zip (map JStr names) cells) rows)"
proof (induction rows)
  case Nil
  then show ?case by simp
next
  case (Cons cells rows)
  from dict_of_distinct[of "[]" names "[]" cells] Cons.prems
  have "dict_of [] (zip (map JStr names) cells) = Inr (zip (map JStr names) cells)" by simp
  with Cons show ?case by simp
qed

lemma format_result_distinct:
  assumes "getitem response ''columns'' = Inr (JList (map JStr names))"
    and "getitem response ''rows'' = Inr (JList (map JList rows))"
    and "distinct names"
  shows "format_result response = Inr (map (\<lambda>cells. zip (map JStr names) cells) rows)"
  by (simp add: format_result_def assms records_distinct)

lemma dict_get_zip:
  "distinct names \<Longrightarrow> j < length names \<Longrightarrow> j < length cells \<Longrightarrow>
   dict_get (zip (map JStr names) cells) (JStr (names ! j)) = Some (cells ! j)"
proof (induction names arbitrary: cells j)
  case Nil
  then show ?case by simp
next
  case (Cons a names)
  then show ?case by (cases cells; cases j) auto
qed

subsection \<open>query\<close>

lemma select_id_fields:
  assumes "select_id c w s = Some (r, c1, w1)"
  shows "client_id c1 = client_id c \<and> secret c1 = secret c \<and> auth_url c1 = auth_url c \<and>
         query_url c1 = query_url c \<and> remote w1 = remote w \<and>
         (\<exists>ls. sent w1 = sent w @ ls \<and> list_all (\<lambda>q. \<not> is_query q) ls)"
proof (cases "(s \<noteq> [] \<and> truthy (u_last_id_or_name c)) \<or> (s = [] \<and> \<not> truthy (u_last_id_or_name c))")
  case True
  with assms have "c1 = c" "w1 = w"
    by (auto simp: select_id_def split: sum.splits if_splits)
  then show ?thesis by simp
next
  case False
  with assms obtain r0 c0 w0 where f: "find_table c w s = Some (r0, c0, w0)"
    by (cases "find_table c w s") (auto simp: select_id_def split: if_splits)
  from assms False f have "c1 = c0" "w1 = w0"
    by (auto simp: select_id_def split: sum.splits if_splits)
  with find_table_fields[OF f] show ?thesis by simp
qed

lemma query_login_failed:
  "login c w = (Inl e, c1, w1) \<Longrightarrow> query c w sql s = Some (Inl e, c1, w1)"
  by (simp add: query_def)

lemma select_id_resolved:
  "truthy (u_last_id_or_name c) \<Longrightarrow> s \<noteq> [] \<Longrightarrow>
   select_id c w s =
     (case getitem (u_last_id_or_name c) ''id'' of
        Inl e \<Rightarrow> Some (Inl e, c, w) | Inr ident \<Rightarrow> Some (Inr ident, c, w))"
  by (simp add: select_id_def)

lemma select_id_header:
  assumes "select_id c w s = Some (r, c1, w1)" and "u_login c \<noteq> []"
  shows "u_login c1 = u_login c"
proof (cases "(s \<noteq> [] \<and> truthy (u_last_id_or_name c)) \<or> (s = [] \<and> \<not> truthy (u_last_id_or_name c))")
  case True
  with assms have "c1 = c"
    by (auto simp: select_id_def split: sum.splits if_splits)
  then show ?thesis by simp
next
  case False
  with assms obtain r0 c0 w0 where f: "find_table c w s = Some (r0, c0, w0)"
    by (cases "find_table c w s") (auto simp: select_id_def split: if_splits)
  from assms False f have "c1 = c0"
    by (auto simp: select_id_def split: sum.splits if_splits)
  with find_table_header[OF f] assms(2) show ?thesis by simp
qed

lemma query_header:
  assumes "query c w sql s = Some (r, c2, w2)" and "login c w = (Inr h, c1, w1)"
  shows "u_login c2 = AList.update ''Accept'' (Literal ''application/json'') h"
proof -
  let ?c = "c1\<lparr>u_login := AList.update ''Accept'' (Literal ''application/json'') h\<rparr>"
  have ne: "u_login ?c \<noteq> []" by (cases h) auto
  from assms obtain r3 c3 w3 where sel: "select_id ?c w1 s = Some (r3, c3, w3)"
    by (cases "select_id ?c w1 s") (auto simp: query_def Let_def)
  from assms sel have "c2 = c3"
    by (auto simp: query_def Let_def split: sum.splits prod.splits response.splits)
  with select_id_header[OF sel ne] show ?thesis by simp
qed

lemma query_header_kept:
  assumes "query c w sql s = Some (r, c2, w2)"
    and "u_login c = [(''Authorization'', Bearer t), (''Accept'', Literal ''application/json'')]"
  shows "u_login c2 = u_login c"
proof -
  from assms(2) have "login c w = (Inr (u_login c), c, w)" by (simp add: login_def)
  from query_header[OF assms(1) this] assms(2) show ?thesis by simp
qed

lemma query_cases:
  assumes "query c w sql s = Some (r, c', w')"
  obtains (auth_failed) e where "login c w = (Inl e, c', w')" "r = Inl e"
  | (no_dataset) e h c1 w1 where "login c w = (Inr h, c1, w1)"
      "select_id (c1\<lparr>u_login := AList.update ''Accept'' (Literal ''application/json'') h\<rparr>) w1 s =
         Some (Inl e, c', w')" "r = Inl e"
  | (asked) h c1 w1 ident w3 where "login c w = (Inr h, c1, w1)"
      "select_id (c1\<lparr>u_login := AList.update ''Accept'' (Literal ''application/json'') h\<rparr>) w1 s =
         Some (Inr ident, c', w3)"
      "w' = w3\<lparr>sent := sent w3 @
         [QueryRequest (query_url c') ident (u_login c')
            (if sql \<noteq> [] then sql else ''select * from table'')]\<rparr>"
      "r = (case remote w3 (sent w3)
              (QueryRequest (query_url c') ident (u_login c')
                 (if sql \<noteq> [] then sql else ''select * from table'')) of
              Failed \<Rightarrow> Inl RequestError
            | Json response \<Rightarrow> format_result response)"
proof -
  obtain r0 c1 w1 where l: "login c w = (r0, c1, w1)" by (cases "login c w") auto
  show ?thesis
  proof (cases r0)
    case (Inl e)
    with assms l have "login c w = (Inl e, c', w')" "r = Inl e"
      by (auto simp: query_def)
    then show ?thesis by (rule auth_failed)
  next
    case (Inr h)
    let ?c = "c1\<lparr>u_login := AList.update ''Accept'' (Literal ''application/json'') h\<rparr>"
    from Inr l have l': "login c w = (Inr h, c1, w1)" by simp
    from assms l' obtain r3 c3 w3 where sel: "select_id ?c w1 s = Some (r3, c3, w3)"
      by (cases "select_id ?c w1 s") (auto simp: query_def Let_def)
    show ?thesis
    proof (cases r3)
      case (Inl e)
      with assms l' sel have "c' = c3" "w' = w3" "r = Inl e"
        by (auto simp: query_def Let_def)
      with sel Inl show ?thesis by (intro no_dataset[OF l', of e]) auto
    next
      case (Inr ident)
      let ?q = "QueryRequest (query_url c3) ident (u_login c3)
            (if sql \<noteq> [] then sql else ''select * from table'')"
      from assms l' sel Inr have "c' = c3"
        by (auto simp: query_def Let_def split: prod.splits response.splits sum.splits)
      moreover from assms l' sel Inr have "w' = w3\<lparr>sent := sent w3 @ [?q]\<rparr>"
        by (auto simp: query_def Let_def send_def split: response.splits sum.splits)
      moreover from assms l' sel Inr have
        "r = (case remote w3 (sent w3) ?q of
              Failed \<Rightarrow> Inl RequestError | Json response \<Rightarrow> format_result response)"
        by (auto simp: query_def Let_def send_def split: response.splits sum.splits)
      ultimately show ?thesis using sel Inr by (intro asked[OF l', of ident w3]) auto
    qed
  qed
qed

lemma no_query_last:
  "ls = before @ [q] \<Longrightarrow> list_all (\<lambda>q. \<not> is_query q) ls \<Longrightarrow> \<not> is_query q"
  by auto

lemma select_id_catalog_kept:
  assumes "select_id c w s = Some (r, c1, w1)" and "u_tables c \<noteq> []"
  shows "u_tables c1 = u_tables c \<and> w1 = w"
proof (cases "(s \<noteq> [] \<and> truthy (u_last_id_or_name c)) \<or> (s = [] \<and> \<not> truthy (u_last_id_or_name c))")
  case True
  with assms have "c1 = c" "w1 = w"
    by (auto simp: select_id_def split: sum.splits if_splits)
  then show ?thesis by simp
next
  case False
  with assms obtain r0 c0 w0 where f: "find_table c w s = Some (r0, c0, w0)"
    by (cases "find_table c w s") (auto simp: select_id_def split: if_splits)
  from assms False f have "c1 = c0" "w1 = w0"
    by (auto simp: select_id_def split: sum.splits if_splits)
  with find_table_catalog_kept[OF f assms(2)] show ?thesis by simp
qed

lemma query_catalog_kept:
  assumes "query c w sql s = Some (r, c2, w2)" and "u_tables c \<noteq> []"
  shows "u_tables c2 = u_tables c \<and> listings w2 = listings w"
  using assms(1)
proof (cases rule: query_cases)
  case (auth_failed e)
  from login_catalog_kept[OF this(1)] show ?thesis .
next
  case (no_dataset e h c1 w1)
  from login_catalog_kept[OF this(1)] assms(2)
  have k: "u_tables c1 = u_tables c" "listings w1 = listings w" by simp_all
  with assms(2) select_id_catalog_kept[OF no_dataset(2)] show ?thesis by simp
next
  case (asked h c1 w1 ident w3)
  from login_catalog_kept[OF this(1)] assms(2)
  have k: "u_tables c1 = u_tables c" "listings w1 = listings w" by simp_all
  with assms(2) select_id_catalog_kept[OF asked(2)]
  have "u_tables c2 = u_tables c" "w3 = w1" by simp_all
  with k asked(3) show ?thesis by (simp add: listings_def)
qed

text \<open>
  Whenever \<open>query\<close> returns after a query request that was answered with columns
  of distinct names and rows of cells, its result is the records of that answer.
\<close>

lemma query_records_of_answer:
  assumes "query c w sql s = Some (r, c', w')"
    and "sent w' = sent w @ before @ [QueryRequest u i h q]"
    and "remote w (sent w @ before) (QueryRequest u i h q) = Json response"
    and "getitem response ''columns'' = Inr (JList (map JStr names))"
    and "getitem response ''rows'' = Inr (JList (map JList rows))"
    and "distinct names"
  shows "r = Inr (map (\<lambda>cells. zip (map JStr names) cells) rows)"
  using assms(1)
proof (cases rule: query_cases)
  case (auth_failed e)
  from login_sent[OF this(1)] obtain ls where "sent w' = sent w @ ls" "list_all is_token ls"
    by auto
  with assms(2) have "ls = before @ [QueryRequest u i h q]" "list_all (\<lambda>q. \<not> is_query q) ls"
    by (auto dest: not_query_token)
  from no_query_last[OF this] show ?thesis by simp
next
  case (no_dataset e h0 c1 w1)
  from login_sent[OF this(1)] obtain ls where ls: "sent w1 = sent w @ ls" "list_all is_token ls"
    by auto
  from select_id_fields[OF no_dataset(2)] obtain ls' where
    ls': "sent w' = sent w1 @ ls'" "list_all (\<lambda>q. \<not> is_query q) ls'" by auto
  from ls(1) ls'(1) assms(2) have eq: "ls @ ls' = before @ [QueryRequest u i h q]"
    by simp
  from not_query_token[OF ls(2)] ls'(2) have "list_all (\<lambda>q. \<not> is_query q) (ls @ ls')"
    by simp
  from no_query_last[OF eq this] show ?thesis by simp
next
  case (asked h0 c1 w1 ident w3)
  from login_sent[OF this(1)] obtain ls where ls: "sent w1 = sent w @ ls" by auto
  from login_fields[OF asked(1)] have r1: "remote w1 = remote w" by simp
  from select_id_fields[OF asked(2)] obtain ls' where
    ls': "sent w3 = sent w1 @ ls'" and r3: "remote w3 = remote w1" by auto
  from asked(3) ls ls' assms(2)
  have "before = ls @ ls'"
    and "QueryRequest (query_url c') ident (u_login c')
            (if sql \<noteq> [] then sql else ''select * from table'') = QueryRequest u i h q"
    by simp_all
  with ls ls' r1 r3 assms(3) asked(4) have "r = format_result response" by simp
  with format_result_distinct[OF assms(4,5,6)] show ?thesis by simp
qed

subsection \<open>Sequences of operations\<close>

lemma exec_header_kept:
  assumes "exec op c w = Some (c1, w1)"
    and "u_login c = [(''Authorization'', Bearer t), (''Accept'', Literal ''application/json'')]"
  shows "u_login c1 = u_login c"
proof (cases op)
  case Login
  with assms(1) obtain r where "login c w = (r, c1, w1)" by (cases "login c w") auto
  from login_header[OF this] assms(2) show ?thesis by simp
next
  case Tables
  with assms(1) obtain r where "tables c w = Some (r, c1, w1)" by auto
  from tables_header[OF this] assms(2) show ?thesis by simp
next
  case (FindTable s)
  with assms(1) obtain r where "find_table c w s = Some (r, c1, w1)" by auto
  from find_table_header[OF this] assms(2) show ?thesis by simp
next
  case (Query sql s)
  with assms(1) obtain r where "query c w sql s = Some (r, c1, w1)" by auto
  from query_header_kept[OF this assms(2)] show ?thesis .
qed

lemma run_header_kept:
  "run ops c w = Some (c1, w1) \<Longrightarrow>
   u_login c = [(''Authorization'', Bearer t), (''Accept'', Literal ''application/json'')] \<Longrightarrow>
   u_login c1 = u_login c"
proof (induction ops arbitrary: c w)
  case Nil
  then show ?case by simp
next
  case (Cons op ops)
  from Cons.prems(1) obtain c0 w0 where e: "exec op c w = Some (c0, w0)"
    and r: "run ops c0 w0 = Some (c1, w1)"
    by (cases "exec op c w") auto
  from exec_header_kept[OF e Cons.prems(2)] have "u_login c0 = u_login c" .
  with Cons.IH[OF r] Cons.prems(2) show ?case by simp
qed

lemma exec_header_shape:
  assumes "exec op c w = Some (c1, w1)"
    and "u_login c = [] \<or> (\<exists>t. u_login c = [(''Authorization'', Bearer t)] \<or>
          u_login c = [(''Authorization'', Bearer t), (''Accept'', Literal ''application/json'')])"
  shows "u_login c1 = [] \<or> (\<exists>t. u_login c1 = [(''Authorization'', Bearer t)] \<or>
          u_login c1 = [(''Authorization'', Bearer t), (''Accept'', Literal ''application/json'')])"
proof (cases op)
  case Login
  with assms(1) obtain r where "login c w = (r, c1, w1)" by (cases "login c w") auto
  from login_header[OF this] assms(2) show ?thesis by auto
next
  case Tables
  with assms(1) obtain r where "tables c w = Some (r, c1, w1)" by auto
  from tables_header[OF this] assms(2) show ?thesis by auto
next
  case (FindTable s)
  with assms(1) obtain r where "find_table c w s = Some (r, c1, w1)" by auto
  from find_table_header[OF this] assms(2) show ?thesis by auto
next
  case (Query sql s)
  with assms(1) obtain r where q: "query c w sql s = Some (r, c1, w1)" by auto
  obtain r0 c0 w0 where l: "login c w = (r0, c0, w0)" by (cases "login c w") auto
  show ?thesis
  proof (cases r0)
    case (Inl e)
    with l q have "c1 = c0" by (simp add: query_login_failed)
    with login_header[OF l] assms(2) show ?thesis by auto
  next
    case (Inr h)
    with l have l': "login c w = (Inr h, c0, w0)" by simp
    from l' have "h = u_login c0" by (rule login_cases) simp_all
    with login_header[OF l] assms(2)
    have "\<exists>t. h = [(''Authorization'', Bearer t)] \<or>
          h = [(''Authorization'', Bearer t), (''Accept'', Literal ''application/json'')]"
      using l' by (elim login_cases) auto
    with query_header[OF q l'] show ?thesis by auto
  qed
qed

lemma run_header_shape:
  "run ops c w = Some (c1, w1) \<Longrightarrow>
   u_login c = [] \<or> (\<exists>t. u_login c = [(''Authorization'', Bearer t)] \<or>
      u_login c = [(''Authorization'', Bearer t), (''Accept'', Literal ''application/json'')]) \<Longrightarrow>
   u_login c1 = [] \<or> (\<exists>t. u_login c1 = [(''Authorization'', Bearer t)] \<or>
      u_login c1 = [(''Authorization'', Bearer t), (''Accept'', Literal ''application/json'')])"
proof (induction ops arbitrary: c w)
  case Nil
  then show ?case by simp
next
  case (Cons op ops)
  from Cons.prems(1) obtain c0 w0 where e: "exec op c w = Some (c0, w0)"
    and r: "run ops c0 w0 = Some (c1, w1)"
    by (cases "exec op c w") auto
  from Cons.IH[OF r exec_header_shape[OF e Cons.prems(2)]] show ?case .
qed

lemma exec_catalog_kept:
  assumes "exec op c w = Some (c1, w1)" and "u_tables c \<noteq> []"
  shows "u_tables c1 = u_tables c \<and> listings w1 = listings w"
proof (cases op)
  case Login
  with assms(1) obtain r where "login c w = (r, c1, w1)" by (cases "login c w") auto
  from login_catalog_kept[OF this] show ?thesis .
next
  case Tables
  with assms show ?thesis by (simp add: tables_cached)
next
  case (FindTable s)
  with assms(1) obtain r where "find_table c w s = Some (r, c1, w1)" by auto
  from find_table_catalog_kept[OF this assms(2)] show ?thesis by simp
next
  case (Query sql s)
  with assms(1) obtain r where "query c w sql s = Some (r, c1, w1)" by auto
  from query_catalog_kept[OF this assms(2)] show ?thesis .
qed

lemma run_catalog_kept:
  "run ops c w = Some (c1, w1) \<Longrightarrow> u_tables c \<noteq> [] \<Longrightarrow>
   u_tables c1 = u_tables c \<and> listings w1 = listings w"
proof (induction ops arbitrary: c w)
  case Nil
  then show ?case by simp
next
  case (Cons op ops)
  from Cons.prems(1) obtain c0 w0 where e: "exec op c w = Some (c0, w0)"
    and r: "run ops c0 w0 = Some (c1, w1)"
    by (cases "exec op c w") auto
  from exec_catalog_kept[OF e Cons.prems(2)] Cons.prems(2)
  have k: "u_tables c0 = u_tables c" "listings w0 = listings w" "u_tables c0 \<noteq> []" by simp_all
  from Cons.IH[OF r k(3)] k show ?case by simp
qed

section \<open>The operations on the examples\<close>

lemma tables_empty_catalog_one_request:
  "listed (tables (Connection ''id'' ''secret'') (service (JStr ''t'') [] JNull)) = Some ([], 1)"
  by (simp add: tables_fresh_serve listed_def listings_def listings_pages length_pages)

lemma flaky_tables:
  "tables sample_connection flaky_world =
     Some (Inl RequestError,
           sample_connection\<lparr>u_login := [(''Authorization'', Bearer (JStr ''t''))]\<rparr>,
           flaky_world\<lparr>sent :=
             [TokenRequest (auth_url sample_connection) ''client'' ''secret'',
              ListRequest (query_url sample_connection) 0 50 [(''Authorization'', Bearer (JStr ''t''))],
              ListRequest (query_url sample_connection) 50 50 [(''Authorization'', Bearer (JStr ''t''))]]\<rparr>)"
proof -
  let ?h = "[(''Authorization'', Bearer (JStr ''t''))]"
  let ?u = "query_url sample_connection"
  let ?tr = "TokenRequest (auth_url sample_connection) (client_id sample_connection) (secret sample_connection)"
  let ?w1 = "flaky_world\<lparr>sent := sent flaky_world @ [?tr]\<rparr>"
  let ?w2 = "?w1\<lparr>sent := sent ?w1 @ [ListRequest ?u 0 50 ?h]\<rparr>"
  have l: "login sample_connection flaky_world =
      (Inr ?h, sample_connection\<lparr>u_login := ?h\<rparr>, ?w1)"
    by (rule login_granted[where body = "JObj [(''access_token'', JStr ''t'')]"])
      (simp_all add: sample_connection_def Connection_def flaky_world_def serve_flaky_def serve_def)
  have "tables_loop ?h ?u 50 0 [] ?w1 = tables_loop ?h ?u 50 (0 + 50) ([] @ sample_catalog) ?w2"
    by (rule tables_loop_next[where chunk = "JList sample_catalog"])
      (simp_all add: flaky_world_def serve_flaky_def serve_def sample_catalog_def)
  also have "\<dots> = Some (Inl RequestError, ?w2\<lparr>sent := sent ?w2 @ [ListRequest ?u (0 + 50) 50 ?h]\<rparr>)"
    by (rule tables_loop_failed) (simp add: flaky_world_def serve_flaky_def)
  finally have loop: "tables_loop ?h ?u 50 0 [] ?w1 =
      Some (Inl RequestError, ?w2\<lparr>sent := sent ?w2 @ [ListRequest ?u 50 50 ?h]\<rparr>)"
    by simp
  have "u_tables sample_connection = []" by (simp add: sample_connection_def Connection_def)
  then show ?thesis
    by (simp add: tables_def l loop) (simp add: sample_connection_def Connection_def flaky_world_def)
qed

lemma later_first:
  "tables sample_connection later_world =
     Some (Inr [],
           sample_connection\<lparr>u_login := [(''Authorization'', Bearer (JStr ''t''))]\<rparr>,
           later_world\<lparr>sent :=
             [TokenRequest (auth_url sample_connection) ''client'' ''secret'',
              ListRequest (query_url sample_connection) 0 50 [(''Authorization'', Bearer (JStr ''t''))]]\<rparr>)"
proof -
  let ?h = "[(''Authorization'', Bearer (JStr ''t''))]"
  let ?u = "query_url sample_connection"
  let ?tr = "TokenRequest (auth_url sample_connection) (client_id sample_connection) (secret sample_connection)"
  let ?w1 = "later_world\<lparr>sent := sent later_world @ [?tr]\<rparr>"
  have l: "login sample_connection later_world =
      (Inr ?h, sample_connection\<lparr>u_login := ?h\<rparr>, ?w1)"
    by (rule login_granted[where body = "JObj [(''access_token'', JStr ''t'')]"])
      (simp_all add: sample_connection_def Connection_def later_world_def serve_later_def serve_def)
  have loop: "tables_loop ?h ?u 50 0 [] ?w1 =
      Some (Inr [], ?w1\<lparr>sent := sent ?w1 @ [ListRequest ?u 0 50 ?h]\<rparr>)"
    by (rule tables_loop_stop[where chunk = "JList []"])
      (simp_all add: later_world_def serve_later_def serve_def)
  have "u_tables sample_connection = []" by (simp add: sample_connection_def Connection_def)
  then show ?thesis
    by (simp add: tables_def l loop) (simp add: sample_connection_def Connection_def later_world_def)
qed

lemma later_second:
  "tables (sample_connection\<lparr>u_login := [(''Authorization'', Bearer (JStr ''t''))]\<rparr>)
     (later_world\<lparr>sent :=
         [TokenRequest (auth_url sample_connection) ''client'' ''secret'',
          ListRequest (query_url sample_connection) 0 50 [(''Authorization'', Bearer (JStr ''t''))]]\<rparr>) =
     Some (Inr sample_catalog,
           sample_connection\<lparr>u_login := [(''Authorization'', Bearer (JStr ''t''))],
             u_tables := sample_catalog\<rparr>,
           later_world\<lparr>sent :=
             [TokenRequest (auth_url sample_connection) ''client'' ''secret'',
              ListRequest (query_url sample_connection) 0 50 [(''Authorization'', Bearer (JStr ''t''))],
              ListRequest (query_url sample_connection) 0 50 [(''Authorization'', Bearer (JStr ''t''))],
              ListRequest (query_url sample_connection) 50 50 [(''Authorization'', Bearer (JStr ''t''))]]\<rparr>)"
proof -
  let ?h = "[(''Authorization'', Bearer (JStr ''t''))]"
  let ?u = "query_url sample_connection"
  let ?c1 = "sample_connection\<lparr>u_login := ?h\<rparr>"
  let ?w1 = "later_world\<lparr>sent :=
         [TokenRequest (auth_url sample_connection) ''client'' ''secret'', ListRequest ?u 0 50 ?h]\<rparr>"
  let ?w2 = "?w1\<lparr>sent := sent ?w1 @ [ListRequest ?u 0 50 ?h]\<rparr>"
  have l: "login ?c1 ?w1 = (Inr ?h, ?c1, ?w1)"
    by (simp add: login_def)
  have "tables_loop ?h ?u 50 0 [] ?w1 = tables_loop ?h ?u 50 (0 + 50) ([] @ sample_catalog) ?w2"
    by (rule tables_loop_next[where chunk = "JList sample_catalog"])
      (simp_all add: later_world_def serve_later_def serve_def sample_catalog_def)
  also have "\<dots> = Some (Inr ([] @ sample_catalog), ?w2\<lparr>sent := sent ?w2 @ [ListRequest ?u (0 + 50) 50 ?h]\<rparr>)"
    by (rule tables_loop_stop[where chunk = "JList []"])
      (simp_all add: later_world_def serve_later_def serve_def sample_catalog_def)
  finally have loop: "tables_loop ?h ?u 50 0 [] ?w1 =
      Some (Inr sample_catalog, ?w2\<lparr>sent := sent ?w2 @ [ListRequest ?u 50 50 ?h]\<rparr>)"
    by simp
  have "u_tables ?c1 = []" "query_url ?c1 = ?u" by (simp_all add: sample_connection_def Connection_def)
  then show ?thesis
    by (simp add: tables_def l loop)
qed

lemma sample_tables:
  "tables sample_connection sample_world =
     Some (Inr sample_catalog,
           sample_connection\<lparr>u_login := [(''Authorization'', Bearer (JStr ''t''))],
              u_tables := sample_catalog\<rparr>,
           sample_world\<lparr>sent :=
              [TokenRequest (auth_url sample_connection) ''client'' ''secret'',
               ListRequest (query_url sample_connection) 0 50 [(''Authorization'', Bearer (JStr ''t''))],
               ListRequest (query_url sample_connection) 50 50 [(''Authorization'', Bearer (JStr ''t''))]]\<rparr>)"
  unfolding sample_connection_def sample_world_def
  by (simp add: tables_fresh_serve pages_def) (simp add: sample_catalog_def)

lemma sample_datasets: "list_all is_dataset sample_catalog"
  by (simp add: sample_catalog_def is_dataset_def)

lemma find_table_missing:
  "find_table sample_connection sample_world ''missing'' =
     Some (Inr None,
           sample_connection\<lparr>u_login := [(''Authorization'', Bearer (JStr ''t''))],
              u_tables := sample_catalog\<rparr>,
           sample_world\<lparr>sent :=
              [TokenRequest (auth_url sample_connection) ''client'' ''secret'',
               ListRequest (query_url sample_connection) 0 50 [(''Authorization'', Bearer (JStr ''t''))],
               ListRequest (query_url sample_connection) 50 50 [(''Authorization'', Bearer (JStr ''t''))]]\<rparr>)"
  by (simp add: find_table_def sample_tables find_loop_datasets[OF sample_datasets])
    (simp add: sample_catalog_def matches_def)

lemma resolved_state:
  "find_table sample_connection sample_world ''A1'' =
     Some (Inr (Some (JObj [(''id'', JStr ''A1''), (''name'', JStr ''Sales'')])),
           resolved_connection, resolved_world)"
  by (simp add: find_table_def sample_tables find_loop_datasets[OF sample_datasets]
      resolved_connection_def resolved_world_def)
    (simp add: sample_catalog_def matches_def)

lemma resolved_login:
  "login resolved_connection resolved_world =
     (Inr [(''Authorization'', Bearer (JStr ''t''))], resolved_connection, resolved_world)"
  by (simp add: login_def resolved_connection_def)

lemma sample_login:
  "login sample_connection sample_world =
     (Inr [(''Authorization'', Bearer (JStr ''t''))],
      sample_connection\<lparr>u_login := [(''Authorization'', Bearer (JStr ''t''))]\<rparr>,
      sample_world\<lparr>sent := [TokenRequest (auth_url sample_connection) ''client'' ''secret'']\<rparr>)"
proof -
  have "login sample_connection sample_world =
     (Inr [(''Authorization'', Bearer (JStr ''t''))],
      sample_connection\<lparr>u_login := [(''Authorization'', Bearer (JStr ''t''))]\<rparr>,
      sample_world\<lparr>sent := sent sample_world @
        [TokenRequest (auth_url sample_connection) (client_id sample_connection)
           (secret sample_connection)]\<rparr>)"
    by (rule login_granted[where body = "JObj [(''access_token'', JStr ''t'')]"])
      (simp_all add: sample_connection_def Connection_def sample_world_def service_def serve_def)
  then show ?thesis
    by (simp add: sample_connection_def Connection_def sample_world_def service_def)
qed

lemma sample_tables_accept:
  "tables
     (sample_connection\<lparr>u_login := [(''Authorization'', Bearer (JStr ''t'')),
        (''Accept'', Literal ''application/json'')]\<rparr>)
     (sample_world\<lparr>sent := [TokenRequest (auth_url sample_connection) ''client'' ''secret'']\<rparr>) =
   Some (Inr sample_catalog,
     sample_connection\<lparr>u_login := [(''Authorization'', Bearer (JStr ''t'')),
        (''Accept'', Literal ''application/json'')], u_tables := sample_catalog\<rparr>,
     sample_world\<lparr>sent :=
       [TokenRequest (auth_url sample_connection) ''client'' ''secret'',
        ListRequest (query_url sample_connection) 0 50
          [(''Authorization'', Bearer (JStr ''t'')), (''Accept'', Literal ''application/json'')],
        ListRequest (query_url sample_connection) 50 50
          [(''Authorization'', Bearer (JStr ''t'')), (''Accept'', Literal ''application/json'')]]\<rparr>)"
proof -
  let ?c = "sample_connection\<lparr>u_login := [(''Authorization'', Bearer (JStr ''t'')),
        (''Accept'', Literal ''application/json'')]\<rparr>"
  let ?w = "sample_world\<lparr>sent := [TokenRequest (auth_url sample_connection) ''client'' ''secret'']\<rparr>"
  have 1: "u_tables ?c = []" by (simp add: sample_connection_def Connection_def)
  have 2: "u_login ?c \<noteq> []" by simp
  have 3: "remote ?w = (\<lambda>history. serve (JStr ''t'') sample_catalog sample_result)"
    by (simp add: sample_world_def service_def)
  have n: "(length sample_catalog + 49) div 50 + 1 = 2" by (simp add: sample_catalog_def)
  have p: "pages u hd 2 = [ListRequest u 0 50 hd, ListRequest u 50 50 hd]" for u hd
    by (simp add: pages_def numeral_2_eq_2)
  show ?thesis
    unfolding tables_serve_cached[OF 1 2 3] n p by simp
qed

text \<open>
  On a fresh Connection that has just authenticated, \<open>query\<close> finds the dataset
  \<^verbatim>\<open>A1\<close> in the catalog, which it lists first.
\<close>

lemma service_select_A1:
  "select_id
     (sample_connection\<lparr>u_login :=
        [(''Authorization'', Bearer (JStr ''t'')), (''Accept'', Literal ''application/json'')]\<rparr>)
     ((service (JStr ''t'') sample_catalog res)
        \<lparr>sent := [TokenRequest (auth_url sample_connection) ''client'' ''secret'']\<rparr>) ''A1'' =
   Some (Inr (JStr ''A1''), queried_connection,
     (service (JStr ''t'') sample_catalog res)\<lparr>sent := butlast queried_requests\<rparr>)"
proof -
  let ?w0 = "service (JStr ''t'') sample_catalog res"
  let ?AA = "[(''Authorization'', Bearer (JStr ''t'')), (''Accept'', Literal ''application/json'')]"
  let ?tok = "TokenRequest (auth_url sample_connection) ''client'' ''secret''"
  let ?u = "query_url sample_connection"
  let ?c2 = "sample_connection\<lparr>u_login := ?AA\<rparr>"
  let ?w1 = "?w0\<lparr>sent := [?tok]\<rparr>"
  let ?w3 = "?w0\<lparr>sent := [?tok, ListRequest ?u 0 50 ?AA, ListRequest ?u 50 50 ?AA]\<rparr>"
  have 1: "u_tables ?c2 = []" by (simp add: sample_connection_def Connection_def)
  have 2: "u_login ?c2 \<noteq> []" by simp
  have 3: "remote ?w1 = (\<lambda>history. serve (JStr ''t'') sample_catalog res)"
    by (simp add: service_def)
  have n: "(length sample_catalog + 49) div 50 + 1 = 2" by (simp add: sample_catalog_def)
  have p: "pages u hd 2 = [ListRequest u 0 50 hd, ListRequest u 50 50 hd]" for u hd
    by (simp add: pages_def numeral_2_eq_2)
  have t: "tables ?c2 ?w1 = Some (Inr sample_catalog, ?c2\<lparr>u_tables := sample_catalog\<rparr>, ?w3)"
    unfolding tables_serve_cached[OF 1 2 3] n p by simp
  have f: "find (matches ''A1'') sample_catalog =
      Some (JObj [(''id'', JStr ''A1''), (''name'', JStr ''Sales'')])"
    by (simp add: sample_catalog_def matches_def)
  have ft: "find_table ?c2 ?w1 ''A1'' =
      Some (Inr (Some (JObj [(''id'', JStr ''A1''), (''name'', JStr ''Sales'')])),
            queried_connection, ?w3)"
    by (simp add: find_table_def t find_loop_datasets[OF sample_datasets] f queried_connection_def)
  have unset: "\<not> truthy (u_last_id_or_name ?c2)"
    by (simp add: sample_connection_def Connection_def)
  have "select_id ?c2 ?w1 ''A1'' = Some (Inr (JStr ''A1''), queried_connection, ?w3)"
    using unset by (simp add: select_id_def ft) (simp add: queried_connection_def)
  then show ?thesis by (simp add: queried_requests_def)
qed

lemma query_service_A1:
  "query sample_connection (service (JStr ''t'') sample_catalog res) [] ''A1'' =
     Some (format_result res, queried_connection,
           (service (JStr ''t'') sample_catalog res)\<lparr>sent := queried_requests\<rparr>)"
proof -
  let ?w0 = "service (JStr ''t'') sample_catalog res"
  let ?A = "[(''Authorization'', Bearer (JStr ''t''))]"
  let ?tok = "TokenRequest (auth_url sample_connection) ''client'' ''secret''"
  let ?w1 = "?w0\<lparr>sent := [?tok]\<rparr>"
  let ?w3 = "?w0\<lparr>sent := butlast queried_requests\<rparr>"
  have "login sample_connection ?w0 =
     (Inr ?A, sample_connection\<lparr>u_login := ?A\<rparr>,
      ?w0\<lparr>sent := sent ?w0 @
        [TokenRequest (auth_url sample_connection) (client_id sample_connection)
           (secret sample_connection)]\<rparr>)"
    by (rule login_granted[where body = "JObj [(''access_token'', JStr ''t'')]"])
      (simp_all add: sample_connection_def Connection_def service_def serve_def)
  then have l: "login sample_connection ?w0 = (Inr ?A, sample_connection\<lparr>u_login := ?A\<rparr>, ?w1)"
    by (simp add: sample_connection_def Connection_def service_def)
  have snd: "send ?w3 (QueryRequest (query_url queried_connection) (JStr ''A1'')
        (u_login queried_connection) ''select * from table'') =
      (Json res, ?w0\<lparr>sent := queried_requests\<rparr>)"
    by (simp add: send_def service_def serve_def queried_requests_def queried_connection_def)
  show ?thesis
    by (cases "format_result res") (simp_all add: query_def l Let_def service_select_A1 snd)
qed

lemma sample_format:
  "format_result sample_result =
     Inr [[(JStr ''id'', JInt 1), (JStr ''val'', JStr ''x'')],
          [(JStr ''id'', JInt 2), (JStr ''val'', JStr ''y'')]]"
  by (simp add: format_result_def sample_result_def)

lemma sample_query:
  "query sample_connection sample_world [] ''A1'' =
     Some (Inr [[(JStr ''id'', JInt 1), (JStr ''val'', JStr ''x'')],
                [(JStr ''id'', JInt 2), (JStr ''val'', JStr ''y'')]],
           queried_connection, sample_world\<lparr>sent := queried_requests\<rparr>)"
  by (simp add: sample_world_def query_service_A1 sample_format)

lemma priced_query:
  "query sample_connection (service (JStr ''t'') sample_catalog priced_result) [] ''A1'' =
     Some (Inr [[(JStr ''id'', JInt 1), (JStr ''price'', JFloat (Finite 5 (- 1)))]],
           queried_connection,
           (service (JStr ''t'') sample_catalog priced_result)\<lparr>sent := queried_requests\<rparr>)"
  by (simp add: query_service_A1) (simp add: format_result_def priced_result_def)

lemma queried_after:
  "run [Tables, Login] queried_connection (sample_world\<lparr>sent := queried_requests\<rparr>) =
     Some (queried_connection, sample_world\<lparr>sent := queried_requests\<rparr>)"
  by (simp add: tables_def login_def queried_connection_def sample_catalog_def)

section \<open>The properties of the specification\<close>

subsection \<open>Pagination of the catalog\<close>

text \<open>
  C1 (as the code has it). On a fresh Connection, against a service that holds a catalog
  of \<open>n\<close> datasets and serves it in pages of 50, \<open>tables\<close> returns the whole catalog
  in order and caches it. The loop ends only at an empty page, so it sends one listing
  request per page that holds entries and one more for the empty page after them:
  \<open>(n + 49) div 50 + 1\<close> requests, at offsets 0, 50, 100, ... That is 4 requests for
  120 datasets (pages of 50, 50, 20 and 0 entries) and 1 request for an empty catalog.
\<close>

theorem tables_pagination:
  "\<exists>c w. tables (Connection cid sec) (service tok ds res) = Some (Inr ds, c, w) \<and>
         u_tables c = ds \<and>
         listings w = pages (query_url c) (u_login c) ((length ds + 49) div 50 + 1) \<and>
         length (listings w) = (length ds + 49) div 50 + 1"
  by (simp add: tables_fresh_serve listings_def listings_pages length_pages)

text \<open>
  A catalog of 120 datasets takes four listing requests, not three; the empty catalog
  takes one.
\<close>

theorem tables_120_datasets_four_requests:
  "listed (tables sample_connection
      (service (JStr ''t'') (map sample_dataset [0..<120]) sample_result)) =
     Some (map sample_dataset [0..<120], 4) \<and>
   listed (tables sample_connection
      (service (JStr ''t'') (map sample_dataset [0..<120]) sample_result)) \<noteq>
     Some (map sample_dataset [0..<120], 3)"
  by (simp add: sample_connection_def tables_fresh_serve listed_def listings_def
      listings_pages length_pages)

subsection \<open>The usage error of query\<close>

text \<open>
  C2 (as the code has it). \<open>query\<close> authenticates before it looks at its arguments.
  On a fresh Connection, a call without \<^verbatim>\<open>id_or_name\<close> (whatever \<^verbatim>\<open>sql\<close> is) sends
  exactly one request, the token request, and nothing else. If that request fails or
  its answer has no \<^verbatim>\<open>access_token\<close>, that failure is what the caller gets; if the
  token is granted, the caller gets the usage error
  \<^verbatim>\<open>ValueError("Must provide Dataset ID or Name.")\<close>.
\<close>

theorem query_fresh_without_dataset:
  "\<exists>r c1.
     query (Connection cid sec) w sql [] =
       Some (r, c1, w\<lparr>sent := sent w @ [TokenRequest (auth_url (Connection cid sec)) cid sec]\<rparr>) \<and>
     (case remote w (sent w) (TokenRequest (auth_url (Connection cid sec)) cid sec) of
        Failed \<Rightarrow> r = Inl RequestError
      | Json body \<Rightarrow>
          (case getitem body ''access_token'' of
             Inl e \<Rightarrow> r = Inl e
           | Inr token \<Rightarrow> r = Inl (ValueError ''Must provide Dataset ID or Name.'')))"
  by (simp add: query_def login_def select_id_def Connection_def send_def Let_def
      split: response.splits sum.splits)

text \<open>
  The usage error on a fresh Connection comes after a network call: the token request
  has been sent by then. And when the service is down, the call ends with the failure
  of that request, not with the usage error.
\<close>

theorem query_fresh_sends_token_request:
  "trace (query sample_connection sample_world [] []) =
     Some (Inl (ValueError ''Must provide Dataset ID or Name.''),
           [TokenRequest (auth_url sample_connection) ''client'' ''secret'']) \<and>
   trace (query sample_connection down_world [] []) =
     Some (Inl RequestError,
           [TokenRequest (auth_url sample_connection) ''client'' ''secret''])"
  by (simp add: trace_def query_def login_def select_id_def sample_connection_def
      Connection_def send_def Let_def sample_world_def service_def serve_def down_world_def)

subsection \<open>The catalog cache\<close>

text \<open>
  C3 (where the code departs from it). A catalog that has entries is cached: no later
  call changes it or sends a listing request (\<open>run_catalog_kept\<close>), and \<open>tables\<close>
  returns it without a request, whatever the remote service holds by then
  (\<open>tables_cached\<close>). The test for a cached catalog is the truth value of the list,
  though, and an empty list is false: after a pass that returned an empty catalog, the
  next access pages through the listing endpoint again. Here the service has no dataset at the
  first pass and two afterwards: the first access returns the empty catalog after one
  listing request, and the second access sends two more listing requests and returns
  the two datasets instead of the catalog fetched before.
\<close>

theorem tables_empty_catalog_fetched_again:
  "run [Tables] sample_connection later_world =
     Some (sample_connection\<lparr>u_login := [(''Authorization'', Bearer (JStr ''t''))]\<rparr>,
           later_world\<lparr>sent :=
             [TokenRequest (auth_url sample_connection) ''client'' ''secret'',
              ListRequest (query_url sample_connection) 0 50 [(''Authorization'', Bearer (JStr ''t''))]]\<rparr>) \<and>
   trace (tables sample_connection later_world) =
     Some (Inr [],
           [TokenRequest (auth_url sample_connection) ''client'' ''secret'',
            ListRequest (query_url sample_connection) 0 50 [(''Authorization'', Bearer (JStr ''t''))]]) \<and>
   trace (tables (sample_connection\<lparr>u_login := [(''Authorization'', Bearer (JStr ''t''))]\<rparr>)
     (later_world\<lparr>sent :=
         [TokenRequest (auth_url sample_connection) ''client'' ''secret'',
          ListRequest (query_url sample_connection) 0 50 [(''Authorization'', Bearer (JStr ''t''))]]\<rparr>)) =
     Some (Inr sample_catalog,
           [TokenRequest (auth_url sample_connection) ''client'' ''secret'',
            ListRequest (query_url sample_connection) 0 50 [(''Authorization'', Bearer (JStr ''t''))],
            ListRequest (query_url sample_connection) 0 50 [(''Authorization'', Bearer (JStr ''t''))],
            ListRequest (query_url sample_connection) 50 50 [(''Authorization'', Bearer (JStr ''t''))]])"
  by (simp add: later_first later_second trace_def)

subsection \<open>Resolving a dataset\<close>

text \<open>
  C4. Let \<open>tables\<close> return the catalog \<open>ds\<close>, every entry of it a dataset (a dict with a
  name and an id). Then \<open>find_table\<close> returns the first entry of \<open>ds\<close>, in catalog order,
  whose name or id is the given string (within an entry the name is compared first,
  \<open>find_loop_name_first\<close>, and the id only when the name differs,
  \<open>find_loop_then_id\<close>). On a match the entry is stored as the last resolved dataset and
  returned; without a match the result is \<open>None\<close> and the last resolved dataset is what
  it was before the call. Nothing is sent beyond what \<open>tables\<close> sends.
\<close>

theorem find_table_first_match:
  assumes "tables c w = Some (Inr ds, c1, w1)" and "list_all is_dataset ds"
  shows "find_table c w s =
           Some (Inr (find (matches s) ds),
                 (case find (matches s) ds of
                    None \<Rightarrow> c1
                  | Some t \<Rightarrow> c1\<lparr>u_last_id_or_name := t\<rparr>),
                 w1) \<and>
         u_last_id_or_name c1 = u_last_id_or_name c"
  using assms tables_fields[OF assms(1)]
  by (simp add: find_table_def find_loop_datasets split: option.splits)

theorem find_table_witness:
  "find_table sample_connection sample_world ''A1'' =
     Some (Inr (Some (JObj [(''id'', JStr ''A1''), (''name'', JStr ''Sales'')])),
           sample_connection\<lparr>u_login := [(''Authorization'', Bearer (JStr ''t''))],
              u_tables := sample_catalog,
              u_last_id_or_name := JObj [(''id'', JStr ''A1''), (''name'', JStr ''Sales'')]\<rparr>,
           sample_world\<lparr>sent :=
              [TokenRequest (auth_url sample_connection) ''client'' ''secret'',
               ListRequest (query_url sample_connection) 0 50 [(''Authorization'', Bearer (JStr ''t''))],
               ListRequest (query_url sample_connection) 50 50 [(''Authorization'', Bearer (JStr ''t''))]]\<rparr>) \<and>
   find_table sample_connection sample_world ''Sales'' =
     find_table sample_connection sample_world ''A1''"
  using find_table_first_match[OF sample_tables sample_datasets, of "''A1''"]
    find_table_first_match[OF sample_tables sample_datasets, of "''Sales''"]
  by (simp add: sample_catalog_def matches_def)

subsection \<open>The dataset a query runs on\<close>

text \<open>
  C5. Let a dataset be resolved already (\<^verbatim>\<open>_last_id_or_name\<close> holds a dataset, with
  its id) and let the authentication succeed. Then \<open>query\<close> with a non-empty
  \<^verbatim>\<open>id_or_name\<close> sends its query request for the id of the last resolved dataset:
  the argument is not looked at, so any two non-empty arguments give the same outcome,
  no catalog request is sent, and the last resolved dataset stays what it was.
\<close>

theorem query_uses_last_resolved:
  assumes "truthy (u_last_id_or_name c)" and "a \<noteq> []" and "b \<noteq> []"
    and "login c w = (Inr h, c1, w1)"
    and "getitem (u_last_id_or_name c) ''id'' = Inr ident"
  shows "query c w sql a = query c w sql b \<and>
    (\<exists>r c2. query c w sql a =
        Some (r, c2,
          w1\<lparr>sent := sent w1 @
            [QueryRequest (query_url c) ident
               (AList.update ''Accept'' (Literal ''application/json'') h)
               (if sql = [] then ''select * from table'' else sql)]\<rparr>) \<and>
        u_last_id_or_name c2 = u_last_id_or_name c)"
proof -
  let ?c2 = "c1\<lparr>u_login := AList.update ''Accept'' (Literal ''application/json'') h\<rparr>"
  from login_fields[OF assms(4)]
  have same: "u_last_id_or_name ?c2 = u_last_id_or_name c" "query_url ?c2 = query_url c"
    by simp_all
  have sel: "select_id ?c2 w1 s = Some (Inr ident, ?c2, w1)" if "s \<noteq> []" for s
    using that assms(1,5) same by (simp add: select_id_resolved)
  show ?thesis
    using assms(2,3,4) same
    by (auto simp: query_def Let_def sel send_def split: response.splits sum.splits)
qed

theorem query_uses_last_resolved_witness:
  "truthy (u_last_id_or_name resolved_connection) \<and>
   getitem (u_last_id_or_name resolved_connection) ''id'' = Inr (JStr ''A1'') \<and>
   query resolved_connection resolved_world [] ''OTHER_ID'' =
     query resolved_connection resolved_world [] ''A1'' \<and>
   (\<exists>r c2. query resolved_connection resolved_world [] ''OTHER_ID'' =
        Some (r, c2,
          resolved_world\<lparr>sent := sent resolved_world @
            [QueryRequest (query_url resolved_connection) (JStr ''A1'')
               (AList.update ''Accept'' (Literal ''application/json'')
                  [(''Authorization'', Bearer (JStr ''t''))])
               (if ([]::string) = [] then ''select * from table'' else [])]\<rparr>) \<and>
        u_last_id_or_name c2 = u_last_id_or_name resolved_connection)"
proof -
  have t: "truthy (u_last_id_or_name resolved_connection)"
    by (simp add: resolved_connection_def)
  have i: "getitem (u_last_id_or_name resolved_connection) ''id'' = Inr (JStr ''A1'')"
    by (simp add: resolved_connection_def)
  have a: "''OTHER_ID'' \<noteq> []" and b: "''A1'' \<noteq> []" by simp_all
  note c = query_uses_last_resolved[OF t a b resolved_login i, of "[]"]
  show ?thesis by (rule conjI[OF t conjI[OF i c]])
qed

subsection \<open>The records of a query\<close>

text \<open>
  C6 (as the code has it). Let the authentication succeed and a dataset id be chosen
  (the id of the last resolved dataset, or of the dataset just found in the catalog),
  and let the remote service answer the query request with a JSON object whose
  \<^verbatim>\<open>columns\<close> are a list of pairwise distinct names and whose \<^verbatim>\<open>rows\<close> are a list of
  lists of cells, of any kind. Then \<open>query\<close> returns, and its result is one record
  per row, in the order of the rows; the record of a row pairs the column names with
  the cells of the row position by position (\<^verbatim>\<open>zip\<close> stops at the shorter of the
  two), so that looking a name up in the record gives the cell at the position of the
  name, wherever the row has a cell there.
\<close>

theorem query_gives_records:
  assumes "login c w = (Inr h, c1, w1)"
    and "select_id (c1\<lparr>u_login := AList.update ''Accept'' (Literal ''application/json'') h\<rparr>) w1 s =
           Some (Inr ident, c3, w3)"
    and "remote w3 (sent w3)
           (QueryRequest (query_url c) ident
              (AList.update ''Accept'' (Literal ''application/json'') h)
              (if sql = [] then ''select * from table'' else sql)) = Json response"
    and "getitem response ''columns'' = Inr (JList (map JStr names))"
    and "getitem response ''rows'' = Inr (JList (map JList rows))"
    and "distinct names"
  shows "query c w sql s =
           Some (Inr (map (\<lambda>cells. zip (map JStr names) cells) rows), c3,
                 w3\<lparr>sent := sent w3 @
                   [QueryRequest (query_url c) ident
                      (AList.update ''Accept'' (Literal ''application/json'') h)
                      (if sql = [] then ''select * from table'' else sql)]\<rparr>) \<and>
         (\<forall>i j. i < length rows \<longrightarrow> j < length names \<longrightarrow> j < length (rows ! i) \<longrightarrow>
            dict_get (map (\<lambda>cells. zip (map JStr names) cells) rows ! i) (JStr (names ! j)) =
              Some (rows ! i ! j))"
proof -
  let ?h = "AList.update ''Accept'' (Literal ''application/json'') h"
  let ?c2 = "c1\<lparr>u_login := ?h\<rparr>"
  let ?q = "QueryRequest (query_url c) ident ?h (if sql = [] then ''select * from table'' else sql)"
  have ne: "u_login ?c2 \<noteq> []" by (cases h) auto
  from select_id_header[OF assms(2) ne] have hd: "u_login c3 = ?h" by simp
  from select_id_fields[OF assms(2)] login_fields[OF assms(1)]
  have url: "query_url c3 = query_url c" by simp
  have snd: "send w3 ?q = (Json response, w3\<lparr>sent := sent w3 @ [?q]\<rparr>)"
    by (simp add: send_def assms(3))
  have "(if sql \<noteq> [] then sql else ''select * from table'') =
        (if sql = [] then ''select * from table'' else sql)" by simp
  then have q: "query c w sql s =
      Some (Inr (map (\<lambda>cells. zip (map JStr names) cells) rows), c3, w3\<lparr>sent := sent w3 @ [?q]\<rparr>)"
    by (simp only: query_def assms(1) Let_def)
       (simp add: assms(2) hd url snd format_result_distinct[OF assms(4,5,6)])
  have "dict_get (map (\<lambda>cells. zip (map JStr names) cells) rows ! i) (JStr (names ! j)) =
          Some (rows ! i ! j)"
    if "i < length rows" "j < length names" "j < length (rows ! i)" for i j
    using that by (simp add: dict_get_zip[OF assms(6)])
  with q show ?thesis by blast
qed

text \<open>
  Without distinct names the positions are lost: \<^verbatim>\<open>dict\<close> keeps one entry per key,
  with the value stored last. For the columns \<^verbatim>\<open>["id", "id"]\<close> and the row
  \<^verbatim>\<open>[1, 2]\<close> the record is \<^verbatim>\<open>{"id": 2}\<close>: the name at position 0 is mapped to the cell
  at position 1. And a name without a cell at its position is not in the record: for
  the columns \<^verbatim>\<open>["id", "val"]\<close> and the row \<^verbatim>\<open>[1]\<close> the record is \<^verbatim>\<open>{"id": 1}\<close>.
\<close>

theorem query_twice_named_column:
  "query sample_connection (service (JStr ''t'') sample_catalog twice_result) [] ''A1'' =
     Some (Inr [[(JStr ''id'', JInt 2)]], queried_connection,
           (service (JStr ''t'') sample_catalog twice_result)\<lparr>sent := queried_requests\<rparr>) \<and>
   query sample_connection (service (JStr ''t'') sample_catalog short_result) [] ''A1'' =
     Some (Inr [[(JStr ''id'', JInt 1)]], queried_connection,
           (service (JStr ''t'') sample_catalog short_result)\<lparr>sent := queried_requests\<rparr>)"
  by (simp add: query_service_A1)
    (simp add: format_result_def twice_result_def short_result_def)

theorem query_gives_records_witness:
  "getitem sample_result ''columns'' = Inr (JList (map JStr [''id'', ''val''])) \<and>
   getitem sample_result ''rows'' =
     Inr (JList (map JList [[JInt 1, JStr ''x''], [JInt 2, JStr ''y'']])) \<and>
   distinct [''id'', ''val''] \<and>
   query sample_connection sample_world [] ''A1'' =
     Some (Inr [[(JStr ''id'', JInt 1), (JStr ''val'', JStr ''x'')],
                [(JStr ''id'', JInt 2), (JStr ''val'', JStr ''y'')]],
           queried_connection, sample_world\<lparr>sent := queried_requests\<rparr>)"
proof -
  let ?A = "[(''Authorization'', Bearer (JStr ''t''))]"
  let ?tok = "TokenRequest (auth_url sample_connection) ''client'' ''secret''"
  let ?w1 = "sample_world\<lparr>sent := [?tok]\<rparr>"
  let ?w3 = "sample_world\<lparr>sent := butlast queried_requests\<rparr>"
  have sel: "select_id
      (sample_connection\<lparr>u_login := ?A\<rparr>
         \<lparr>u_login := AList.update ''Accept'' (Literal ''application/json'') ?A\<rparr>) ?w1 ''A1'' =
      Some (Inr (JStr ''A1''), queried_connection, ?w3)"
    using service_select_A1[of sample_result] by (simp add: sample_world_def)
  have a: "remote ?w3 (sent ?w3)
      (QueryRequest (query_url sample_connection) (JStr ''A1'')
         (AList.update ''Accept'' (Literal ''application/json'') ?A)
         (if ([]::string) = [] then ''select * from table'' else [])) = Json sample_result"
    by (simp add: sample_world_def service_def serve_def)
  have c: "getitem sample_result ''columns'' = Inr (JList (map JStr [''id'', ''val'']))"
    by (simp add: sample_result_def)
  have r: "getitem sample_result ''rows'' =
     Inr (JList (map JList [[JInt 1, JStr ''x''], [JInt 2, JStr ''y'']]))"
    by (simp add: sample_result_def)
  have d: "distinct [''id'', ''val'']" by simp
  from query_gives_records[OF sample_login sel a c r d]
  have "query sample_connection sample_world [] ''A1'' =
      Some (Inr (map (\<lambda>cells. zip (map JStr [''id'', ''val'']) cells)
                   [[JInt 1, JStr ''x''], [JInt 2, JStr ''y'']]),
            queried_connection,
            ?w3\<lparr>sent := sent ?w3 @
              [QueryRequest (query_url sample_connection) (JStr ''A1'')
                 (AList.update ''Accept'' (Literal ''application/json'') ?A)
                 (if ([]::string) = [] then ''select * from table'' else [])]\<rparr>)"
    by (rule conjunct1)
  then have concl: "query sample_connection sample_world [] ''A1'' =
     Some (Inr [[(JStr ''id'', JInt 1), (JStr ''val'', JStr ''x'')],
                [(JStr ''id'', JInt 2), (JStr ''val'', JStr ''y'')]],
           queried_connection, sample_world\<lparr>sent := queried_requests\<rparr>)"
    by (simp add: queried_requests_def)
  show ?thesis by (rule conjI[OF c conjI[OF r conjI[OF d concl]]])
qed

subsection \<open>Authentication\<close>

text \<open>
  C7. On a Connection with no cached header, when the token endpoint answers with a
  JSON object that has an \<^verbatim>\<open>access_token\<close>, the first access to \<open>login\<close> sends one
  token request, builds the header \<^verbatim>\<open>Authorization: bearer <token>\<close> and caches it;
  the second access returns the same header and sends nothing, so after both calls
  exactly one token request has been sent. The second answer does not depend on the
  remote service at all.
\<close>

theorem login_twice_one_token_request:
  assumes "u_login c = []"
    and "remote w (sent w) (TokenRequest (auth_url c) (client_id c) (secret c)) = Json body"
    and "getitem body ''access_token'' = Inr token"
  shows "\<exists>c1 w1.
           login c w = (Inr [(''Authorization'', Bearer token)], c1, w1) \<and>
           u_login c1 = [(''Authorization'', Bearer token)] \<and>
           sent w1 = sent w @ [TokenRequest (auth_url c) (client_id c) (secret c)] \<and>
           login c1 w1 = (Inr [(''Authorization'', Bearer token)], c1, w1) \<and>
           (\<forall>v. login c1 v = (Inr [(''Authorization'', Bearer token)], c1, v))"
  using assms by (simp add: login_granted login_cached)

theorem login_twice_witness:
  "u_login sample_connection = [] \<and>
   remote sample_world (sent sample_world)
     (TokenRequest (auth_url sample_connection) (client_id sample_connection)
        (secret sample_connection)) =
     Json (JObj [(''access_token'', JStr ''t'')]) \<and>
   getitem (JObj [(''access_token'', JStr ''t'')]) ''access_token'' = Inr (JStr ''t'') \<and>
   (\<exists>c1 w1.
      login sample_connection sample_world =
        (Inr [(''Authorization'', Bearer (JStr ''t''))], c1, w1) \<and>
      u_login c1 = [(''Authorization'', Bearer (JStr ''t''))] \<and>
      sent w1 = sent sample_world @
        [TokenRequest (auth_url sample_connection) (client_id sample_connection)
           (secret sample_connection)] \<and>
      login c1 w1 = (Inr [(''Authorization'', Bearer (JStr ''t''))], c1, w1) \<and>
      (\<forall>v. login c1 v = (Inr [(''Authorization'', Bearer (JStr ''t''))], c1, v)))"
proof (intro conjI)
  show fresh: "u_login sample_connection = []"
    by (simp add: sample_connection_def Connection_def)
  show granted:
    "remote sample_world (sent sample_world)
       (TokenRequest (auth_url sample_connection) (client_id sample_connection)
          (secret sample_connection)) =
     Json (JObj [(''access_token'', JStr ''t'')])"
    by (simp add: sample_world_def service_def serve_def)
  show token: "getitem (JObj [(''access_token'', JStr ''t'')]) ''access_token'' = Inr (JStr ''t'')"
    by simp
  show "\<exists>c1 w1.
      login sample_connection sample_world =
        (Inr [(''Authorization'', Bearer (JStr ''t''))], c1, w1) \<and>
      u_login c1 = [(''Authorization'', Bearer (JStr ''t''))] \<and>
      sent w1 = sent sample_world @
        [TokenRequest (auth_url sample_connection) (client_id sample_connection)
           (secret sample_connection)] \<and>
      login c1 w1 = (Inr [(''Authorization'', Bearer (JStr ''t''))], c1, w1) \<and>
      (\<forall>v. login c1 v = (Inr [(''Authorization'', Bearer (JStr ''t''))], c1, v))"
    by (rule login_twice_one_token_request[OF fresh granted token])
qed

subsection \<open>What a failed listing leaves behind\<close>

text \<open>
  C8 (as the code has it). Let the catalog not be cached, let the authentication
  succeed with the header \<open>h\<close> (cached already, or fetched by this call), and let the
  remote service answer the first \<open>k\<close> listing requests of the pagination with
  non-empty pages and fail on the next one (\<open>k\<close> may be 0). Then \<open>tables\<close> returns,
  and what the caller gets is the failure, after \<open>k + 1\<close> listing requests. No catalog
  is cached afterwards, none of the \<open>k\<close> pages received, and the last resolved
  dataset is untouched, so a later call starts the pagination again at offset 0. The
  header \<open>h\<close> is cached afterwards: a header that was cached before the call is
  unchanged, and a header that was not is the one fetched by the failing call, which
  stays cached; a later access to \<open>login\<close> returns it and sends no request.
\<close>

theorem tables_fails_mid_pagination:
  assumes "u_tables c = []"
    and "login c w = (Inr h, c1, w1)"
    and "\<forall>j<k. \<exists>chunk items.
           remote w1 (sent w1 @ pages (query_url c) h j)
             (ListRequest (query_url c) (50 * int j) 50 h) = Json chunk \<and>
           truthy chunk \<and> iter chunk = Inr items"
    and "remote w1 (sent w1 @ pages (query_url c) h k)
           (ListRequest (query_url c) (50 * int k) 50 h) = Failed"
  shows "tables c w =
           Some (Inl RequestError, c1, w1\<lparr>sent := sent w1 @ pages (query_url c) h (Suc k)\<rparr>) \<and>
         c1 = c\<lparr>u_login := h\<rparr> \<and> h \<noteq> [] \<and> (u_login c = [] \<or> c1 = c) \<and>
         u_tables c1 = [] \<and> u_last_id_or_name c1 = u_last_id_or_name c \<and>
         (\<forall>v. login c1 v = (Inr h, c1, v))"
proof -
  have loop: "tables_loop h (query_url c) 50 0 [] w1 =
      Some (Inl RequestError,
            w1\<lparr>sent := sent w1 @
              map (\<lambda>i. ListRequest (query_url c) (0 + 50 * int i) 50 h) [0..<Suc k]\<rparr>)"
    by (rule tables_loop_fails_at) (use assms(3,4) in \<open>simp_all add: pages_def\<close>)
  note c1 = login_granted_or_cached[OF assms(2)]
  from c1(1) have q: "query_url c1 = query_url c" by simp
  have t: "tables c w =
      Some (Inl RequestError, c1, w1\<lparr>sent := sent w1 @ pages (query_url c) h (Suc k)\<rparr>)"
    using loop by (simp add: tables_def assms(1,2) q pages_def)
  from c1(1,2) have "u_login c1 \<noteq> []" by simp
  from login_cached[OF this] c1(1) have again: "\<forall>v. login c1 v = (Inr h, c1, v)" by simp
  from c1(1) assms(1) have "u_tables c1 = []" "u_last_id_or_name c1 = u_last_id_or_name c"
    by simp_all
  with t c1 again show ?thesis by blast
qed

text \<open>
  The caching state after a failure in the middle of the pagination is not the one
  before the call: the Connection had no header, and has one now.
\<close>

theorem tables_failure_caches_header:
  "caches (tables sample_connection flaky_world) =
     Some (Inl RequestError, [(''Authorization'', Bearer (JStr ''t''))], [], JStr []) \<and>
   u_login sample_connection = []"
  by (simp add: flaky_tables caches_def) (simp add: sample_connection_def Connection_def)

theorem tables_fails_witness:
  "u_tables sample_connection = [] \<and> u_login sample_connection = [] \<and>
   login sample_connection flaky_world =
     (Inr [(''Authorization'', Bearer (JStr ''t''))],
      sample_connection\<lparr>u_login := [(''Authorization'', Bearer (JStr ''t''))]\<rparr>,
      flaky_world\<lparr>sent := [TokenRequest (auth_url sample_connection) ''client'' ''secret'']\<rparr>) \<and>
   remote flaky_world
     [TokenRequest (auth_url sample_connection) ''client'' ''secret'']
     (ListRequest (query_url sample_connection) 0 50 [(''Authorization'', Bearer (JStr ''t''))]) =
     Json (JList sample_catalog) \<and>
   truthy (JList sample_catalog) \<and>
   remote flaky_world
     [TokenRequest (auth_url sample_connection) ''client'' ''secret'',
      ListRequest (query_url sample_connection) 0 50 [(''Authorization'', Bearer (JStr ''t''))]]
     (ListRequest (query_url sample_connection) 50 50 [(''Authorization'', Bearer (JStr ''t''))]) =
     Failed \<and>
   tables sample_connection flaky_world =
     Some (Inl RequestError,
           sample_connection\<lparr>u_login := [(''Authorization'', Bearer (JStr ''t''))]\<rparr>,
           flaky_world\<lparr>sent :=
             [TokenRequest (auth_url sample_connection) ''client'' ''secret'',
              ListRequest (query_url sample_connection) 0 50 [(''Authorization'', Bearer (JStr ''t''))],
              ListRequest (query_url sample_connection) 50 50 [(''Authorization'', Bearer (JStr ''t''))]]\<rparr>)"
proof -
  let ?h = "[(''Authorization'', Bearer (JStr ''t''))]"
  let ?u = "query_url sample_connection"
  let ?tok = "TokenRequest (auth_url sample_connection) ''client'' ''secret''"
  let ?c1 = "sample_connection\<lparr>u_login := ?h\<rparr>"
  let ?w1 = "flaky_world\<lparr>sent := [?tok]\<rparr>"
  have t: "u_tables sample_connection = []" and f: "u_login sample_connection = []"
    by (simp_all add: sample_connection_def Connection_def)
  have "login sample_connection flaky_world =
      (Inr ?h, ?c1,
       flaky_world\<lparr>sent := sent flaky_world @
         [TokenRequest (auth_url sample_connection) (client_id sample_connection)
            (secret sample_connection)]\<rparr>)"
    by (rule login_granted[where body = "JObj [(''access_token'', JStr ''t'')]"])
      (simp_all add: sample_connection_def Connection_def flaky_world_def serve_flaky_def serve_def)
  then have l: "login sample_connection flaky_world = (Inr ?h, ?c1, ?w1)"
    by (simp add: sample_connection_def Connection_def flaky_world_def)
  have p0: "remote flaky_world [?tok] (ListRequest ?u 0 50 ?h) = Json (JList sample_catalog)"
    by (simp add: flaky_world_def serve_flaky_def serve_def sample_catalog_def)
  have tr: "truthy (JList sample_catalog)" by (simp add: sample_catalog_def)
  have p1: "remote flaky_world [?tok, ListRequest ?u 0 50 ?h] (ListRequest ?u 50 50 ?h) = Failed"
    by (simp add: flaky_world_def serve_flaky_def)
  have good: "\<forall>j<1. \<exists>chunk items.
           remote ?w1 (sent ?w1 @ pages ?u ?h j) (ListRequest ?u (50 * int j) 50 ?h) = Json chunk \<and>
           truthy chunk \<and> iter chunk = Inr items"
    using p0 tr by (simp add: pages_def)
  have bad: "remote ?w1 (sent ?w1 @ pages ?u ?h 1) (ListRequest ?u (50 * int 1) 50 ?h) = Failed"
    using p1 by (simp add: pages_def)
  from tables_fails_mid_pagination[OF t l good bad]
  have "tables sample_connection flaky_world =
      Some (Inl RequestError, ?c1, ?w1\<lparr>sent := sent ?w1 @ pages ?u ?h (Suc 1)\<rparr>)"
    by (rule conjunct1)
  then have concl: "tables sample_connection flaky_world =
      Some (Inl RequestError, ?c1,
        flaky_world\<lparr>sent := [?tok, ListRequest ?u 0 50 ?h, ListRequest ?u 50 50 ?h]\<rparr>)"
    by (simp add: pages_def)
  show ?thesis
    by (rule conjI[OF t conjI[OF f conjI[OF l conjI[OF p0 conjI[OF tr conjI[OF p1 concl]]]]]])
qed

subsection \<open>The Accept entry of the cached header\<close>

text \<open>
  C9. Take a Connection in any state that calls of \<open>login\<close>, \<open>tables\<close>,
  \<open>find_table\<close> and \<open>query\<close> can bring a fresh Connection to, and a call of \<open>query\<close>
  on it that returns, with a result or with an exception, after its authentication has
  succeeded. The header the call has worked on is the cached one, so after the call the
  cached header holds the \<^verbatim>\<open>Authorization\<close> entry and the entry
  \<^verbatim>\<open>Accept: application/json\<close>. Whatever is called afterwards, the cached header stays
  that one, and \<open>login\<close> returns it without a request.
\<close>

theorem query_leaves_accept_in_cached_header:
  assumes "run before (Connection cid sec) w0 = Some (c1, w1)"
    and "query c1 w1 sql s = Some (r, c2, w2)"
    and "login c1 w1 = (Inr h, c, w)"
    and "run after c2 w2 = Some (c3, w3)"
  shows "\<exists>t. u_login c2 = [(''Authorization'', Bearer t), (''Accept'', Literal ''application/json'')] \<and>
             u_login c3 = u_login c2 \<and>
             (\<forall>v. login c3 v = (Inr (u_login c2), c3, v))"
proof -
  have "u_login (Connection cid sec) = []" by (simp add: Connection_def)
  with run_header_shape[OF assms(1)]
  have shape: "u_login c1 = [] \<or> (\<exists>t. u_login c1 = [(''Authorization'', Bearer t)] \<or>
      u_login c1 = [(''Authorization'', Bearer t), (''Accept'', Literal ''application/json'')])"
    by simp
  from assms(3) have "h = u_login c" by (rule login_cases) simp_all
  with login_header[OF assms(3)] shape
  have "\<exists>t. h = [(''Authorization'', Bearer t)] \<or>
          h = [(''Authorization'', Bearer t), (''Accept'', Literal ''application/json'')]"
    using assms(3) by (elim login_cases) auto
  with query_header[OF assms(2,3)] obtain t where
    full: "u_login c2 = [(''Authorization'', Bearer t), (''Accept'', Literal ''application/json'')]"
    by auto
  from run_header_kept[OF assms(4) full] have kept: "u_login c3 = u_login c2" .
  with full have "login c3 v = (Inr (u_login c2), c3, v)" for v
    by (simp add: login_def)
  with full kept show ?thesis by blast
qed

theorem query_leaves_accept_witness:
  "run [] (Connection ''client'' ''secret'') sample_world = Some (sample_connection, sample_world) \<and>
   query sample_connection sample_world [] ''A1'' =
     Some (Inr [[(JStr ''id'', JInt 1), (JStr ''val'', JStr ''x'')],
                [(JStr ''id'', JInt 2), (JStr ''val'', JStr ''y'')]],
           queried_connection, sample_world\<lparr>sent := queried_requests\<rparr>) \<and>
   run [Tables, Login] queried_connection (sample_world\<lparr>sent := queried_requests\<rparr>) =
     Some (queried_connection, sample_world\<lparr>sent := queried_requests\<rparr>) \<and>
   (\<exists>t. u_login queried_connection =
        [(''Authorization'', Bearer t), (''Accept'', Literal ''application/json'')] \<and>
      u_login queried_connection = u_login queried_connection \<and>
      (\<forall>v. login queried_connection v = (Inr (u_login queried_connection), queried_connection, v)))"
proof -
  have b: "run [] (Connection ''client'' ''secret'') sample_world = Some (sample_connection, sample_world)"
    by (simp add: sample_connection_def)
  note concl = query_leaves_accept_in_cached_header[OF b sample_query sample_login queried_after]
  show ?thesis by (rule conjI[OF b conjI[OF sample_query conjI[OF queried_after concl]]])
qed

subsection \<open>A query for a dataset that does not exist\<close>

text \<open>
  C10. Let no dataset be resolved yet (\<^verbatim>\<open>_last_id_or_name\<close> is still the empty
  string), let the authentication succeed and let the catalog, a list of datasets, hold
  no entry whose name or id is the non-empty \<^verbatim>\<open>id_or_name\<close>. Then \<open>query\<close> fails
  with the \<^verbatim>\<open>TypeError\<close> of indexing the empty string with \<^verbatim>\<open>"id"\<close>, not with the
  usage error. The Connection and the world are then the ones that the authentication
  and the listing of the catalog have left: the failure comes after their requests, no
  query request is sent, and no dataset is resolved afterwards. On a Connection that
  has nothing cached, the requests of the call are the token request and, after it, at
  least one listing request.
\<close>

theorem query_unmatched_type_error:
  assumes "u_last_id_or_name c = JStr []" and "s \<noteq> []"
    and "login c w = (Inr h, c1, w1)"
    and "tables (c1\<lparr>u_login := AList.update ''Accept'' (Literal ''application/json'') h\<rparr>) w1 =
           Some (Inr ds, c2, w2)"
    and "list_all is_dataset ds" and "find (matches s) ds = None"
  shows "query c w sql s = Some (Inl TypeError, c2, w2) \<and>
         u_last_id_or_name c2 = JStr [] \<and>
         (\<exists>ls. sent w2 = sent w @ ls \<and> list_all (\<lambda>q. \<not> is_query q) ls) \<and>
         (u_login c = [] \<and> u_tables c = [] \<longrightarrow>
            (\<exists>ls. sent w2 = sent w @ TokenRequest (auth_url c) (client_id c) (secret c) # ls \<and>
                  ls \<noteq> [] \<and> list_all is_listing ls))"
proof -
  let ?c = "c1\<lparr>u_login := AList.update ''Accept'' (Literal ''application/json'') h\<rparr>"
  from login_fields[OF assms(3)] assms(1)
  have unset: "u_last_id_or_name ?c = JStr []" by simp
  from tables_fields[OF assms(4)] unset
  have unset2: "u_last_id_or_name c2 = JStr []" by simp
  have "find_table ?c w1 s = Some (Inr None, c2, w2)"
    by (simp add: find_table_def assms(4) find_loop_datasets[OF assms(5)] assms(6))
  with assms(2) unset unset2 have "select_id ?c w1 s = Some (Inl TypeError, c2, w2)"
    by (simp add: select_id_def)
  then have q: "query c w sql s = Some (Inl TypeError, c2, w2)"
    by (simp add: query_def assms(3) Let_def)
  from login_sent[OF assms(3)] obtain ls where ls: "sent w1 = sent w @ ls" "list_all is_token ls"
    by auto
  from tables_sent[OF assms(4)] obtain ls' where
    ls': "sent w2 = sent w1 @ ls'" "list_all (\<lambda>q. \<not> is_query q) ls'" by auto
  from ls ls' have "sent w2 = sent w @ (ls @ ls')" "list_all (\<lambda>q. \<not> is_query q) (ls @ ls')"
    by (auto dest: not_query_token)
  then have "\<exists>ls. sent w2 = sent w @ ls \<and> list_all (\<lambda>q. \<not> is_query q) ls" by blast
  moreover have "\<exists>ls. sent w2 = sent w @ TokenRequest (auth_url c) (client_id c) (secret c) # ls \<and>
                  ls \<noteq> [] \<and> list_all is_listing ls"
    if fresh: "u_login c = []" "u_tables c = []"
  proof -
    from assms(3)
    have w1: "w1 = w\<lparr>sent := sent w @ [TokenRequest (auth_url c) (client_id c) (secret c)]\<rparr>"
      using fresh(1) by (elim login_cases) simp_all
    from login_fields[OF assms(3)] fresh(2) have "u_tables ?c = []" by simp
    with assms(4) obtain h' c0 w0 where l: "login ?c w1 = (Inr h', c0, w0)"
      and loop: "tables_loop h' (query_url c0) 50 0 [] w0 = Some (Inr ds, w2)"
      by (cases rule: tables_cases) auto
    have "u_login ?c \<noteq> []" by (cases h) auto
    from login_cached[OF this] l have "w0 = w1" by simp
    with tables_loop_sent[OF loop] obtain ls where
      "sent w2 = sent w1 @ ls" "ls \<noteq> []" "list_all is_listing ls" by auto
    with w1 show ?thesis by auto
  qed
  ultimately show ?thesis using q unset2 by simp
qed

theorem query_unmatched_witness:
  "u_last_id_or_name sample_connection = JStr [] \<and>
   list_all is_dataset sample_catalog \<and>
   find (matches ''missing'') sample_catalog = None \<and>
   query sample_connection sample_world [] ''missing'' =
     Some (Inl TypeError,
       sample_connection\<lparr>u_login := [(''Authorization'', Bearer (JStr ''t'')),
          (''Accept'', Literal ''application/json'')], u_tables := sample_catalog\<rparr>,
       sample_world\<lparr>sent :=
         [TokenRequest (auth_url sample_connection) ''client'' ''secret'',
          ListRequest (query_url sample_connection) 0 50
            [(''Authorization'', Bearer (JStr ''t'')), (''Accept'', Literal ''application/json'')],
          ListRequest (query_url sample_connection) 50 50
            [(''Authorization'', Bearer (JStr ''t'')), (''Accept'', Literal ''application/json'')]]\<rparr>)"
proof -
  have u: "u_last_id_or_name sample_connection = JStr []"
    by (simp add: sample_connection_def Connection_def)
  have s: "''missing'' \<noteq> []" by simp
  have f: "find (matches ''missing'') sample_catalog = None"
    by (simp add: sample_catalog_def matches_def)
  have t: "tables
     (sample_connection\<lparr>u_login := [(''Authorization'', Bearer (JStr ''t''))]\<rparr>
        \<lparr>u_login := AList.update ''Accept'' (Literal ''application/json'')
           [(''Authorization'', Bearer (JStr ''t''))]\<rparr>)
     (sample_world\<lparr>sent := [TokenRequest (auth_url sample_connection) ''client'' ''secret'']\<rparr>) =
   Some (Inr sample_catalog,
     sample_connection\<lparr>u_login := [(''Authorization'', Bearer (JStr ''t'')),
        (''Accept'', Literal ''application/json'')], u_tables := sample_catalog\<rparr>,
     sample_world\<lparr>sent :=
       [TokenRequest (auth_url sample_connection) ''client'' ''secret'',
        ListRequest (query_url sample_connection) 0 50
          [(''Authorization'', Bearer (JStr ''t'')), (''Accept'', Literal ''application/json'')],
        ListRequest (query_url sample_connection) 50 50
          [(''Authorization'', Bearer (JStr ''t'')), (''Accept'', Literal ''application/json'')]]\<rparr>)"
    using sample_tables_accept by simp
  from query_unmatched_type_error[OF u s sample_login t sample_datasets f, of "[]"] u f
    sample_datasets
  show ?thesis by simp
qed

end
